theory Spec2Isabelle
  imports Main "HOL-Library.Word"
begin

section \<open>Streaming compression layer of libosmium: \<open>osmium/io/compression.hpp\<close>\<close>

text \<open>
  The header defines the abstract \<open>Compressor\<close> and \<open>Decompressor\<close> classes, the
  \<open>CompressionFactory\<close> registry, and the identity codec \<open>NoCompressor\<close> /
  \<open>NoDecompressor\<close>. Member functions become functions that take the object and the
  transcript of platform calls made so far and return the updated object and transcript;
  a C++ exception becomes an \<open>error\<close> value.
\<close>

subsection \<open>Basic types\<close>

text \<open>\<open>std::size_t\<close> on an LP64 platform: unsigned, 64 bits, arithmetic wraps.\<close>

type_synonym size_t = "64 word"

text \<open>
  Modelled from the spec: "Sync policy: two-valued flag (fsync-on-close yes/no)". The
  enumeration \<open>osmium::io::fsync\<close> is declared in \<open>writer_options.hpp\<close>; the header only
  compares it with \<open>fsync::yes\<close>.
\<close>

datatype fsync = fsync_no | fsync_yes

text \<open>
  The exceptions that leave the functions of the header: \<open>unsupported_file_format_error\<close>
  with its message, thrown by \<open>find_callbacks\<close>, and the \<open>std::system_error\<close> of a failing
  platform primitive.
\<close>

datatype error = unsupported_file_format_error string | system_error string

subsection \<open>Platform primitives\<close>

text \<open>
  The primitives of \<open>osmium/io/detail/read_write.hpp\<close> and \<open>osmium/util/file.hpp\<close> are
  used but not defined by the header. Every call is appended to a transcript; a read records
  the bytes it delivered as well. What a primitive answers is a parameter: a \<open>platform\<close>
  gives the outcome of each fallible primitive as a function of the transcript so far and of
  the arguments of the call.
\<close>

datatype call =
    call_reliable_write int string
  | call_reliable_fsync int
  | call_reliable_close int
  | call_reliable_read int nat string
  | call_remove_buffered_pages int size_t
  | call_remove_buffered_pages_all int
  | call_file_size int

type_synonym trace = "call list"

record platform =
  write_outcome :: "trace \<Rightarrow> int \<Rightarrow> string \<Rightarrow> error option"
  fsync_outcome :: "trace \<Rightarrow> int \<Rightarrow> error option"
  close_outcome :: "trace \<Rightarrow> int \<Rightarrow> error option"
  read_outcome :: "trace \<Rightarrow> int \<Rightarrow> nat \<Rightarrow> error + string"
  file_size_outcome :: "trace \<Rightarrow> int \<Rightarrow> error + size_t"

text \<open>
  Modelled from the spec: "reliable write(descriptor, buffer, len)"; an I/O failure is
  raised from the point of occurrence.
\<close>

definition reliable_write :: "platform \<Rightarrow> int \<Rightarrow> string \<Rightarrow> trace \<Rightarrow> error option \<times> trace" where
  "reliable_write P fd data tr = (write_outcome P tr fd data, tr @ [call_reliable_write fd data])"

text \<open>Modelled from the spec: "fsync(descriptor)".\<close>

definition reliable_fsync :: "platform \<Rightarrow> int \<Rightarrow> trace \<Rightarrow> error option \<times> trace" where
  "reliable_fsync P fd tr = (fsync_outcome P tr fd, tr @ [call_reliable_fsync fd])"

text \<open>Modelled from the spec: "close(descriptor)".\<close>

definition reliable_close :: "platform \<Rightarrow> int \<Rightarrow> trace \<Rightarrow> error option \<times> trace" where
  "reliable_close P fd tr = (close_outcome P tr fd, tr @ [call_reliable_close fd])"

text \<open>
  Modelled from the spec: "reliable blocking read(descriptor, buffer, max_len) -> actual_len".
  The platform delivers at most \<open>max_len\<close> bytes; none are delivered when the call fails.
\<close>

definition reliable_read :: "platform \<Rightarrow> int \<Rightarrow> nat \<Rightarrow> trace \<Rightarrow> (error + string) \<times> trace" where
  "reliable_read P fd max_len tr =
     (case read_outcome P tr fd max_len of
        Inl e \<Rightarrow> (Inl e, tr @ [call_reliable_read fd max_len []])
      | Inr data \<Rightarrow> (Inr (take max_len data), tr @ [call_reliable_read fd max_len (take max_len data)]))"

text \<open>
  Modelled from the spec: "evict-cached-pages-up-to(descriptor, offset) hint (best-effort,
  failure non-fatal)". It never throws.
\<close>

definition remove_buffered_pages :: "int \<Rightarrow> size_t \<Rightarrow> trace \<Rightarrow> trace" where
  "remove_buffered_pages fd off tr = tr @ [call_remove_buffered_pages fd off]"

text \<open>
  Modelled from the spec: the same hint in the one-argument overload
  \<open>remove_buffered_pages(fd)\<close> that \<open>NoDecompressor::close\<close> calls, for the whole file.
\<close>

definition remove_buffered_pages_all :: "int \<Rightarrow> trace \<Rightarrow> trace" where
  "remove_buffered_pages_all fd tr = tr @ [call_remove_buffered_pages_all fd]"

text \<open>Modelled from the spec: "query file size of descriptor" (\<open>osmium::file_size(fd)\<close>).\<close>

definition file_size :: "platform \<Rightarrow> int \<Rightarrow> trace \<Rightarrow> (error + size_t) \<times> trace" where
  "file_size P fd tr = (file_size_outcome P tr fd, tr @ [call_file_size fd])"

subsection \<open>class Compressor\<close>

record Compressor =
  m_fsync :: fsync

definition do_fsync :: "'a Compressor_scheme \<Rightarrow> bool" where
  "do_fsync c = (m_fsync c = fsync_yes)"

subsection \<open>class Decompressor\<close>

record Decompressor =
  m_file_size :: size_t
  m_offset :: size_t
  m_want_buffered_pages_removed :: bool

definition input_buffer_size :: nat where
  "input_buffer_size = 1024 * 1024"

definition Decompressor_file_size :: "'a Decompressor_scheme \<Rightarrow> size_t" where
  "Decompressor_file_size d = m_file_size d"

definition set_file_size :: "size_t \<Rightarrow> 'a Decompressor_scheme \<Rightarrow> 'a Decompressor_scheme" where
  "set_file_size sz d = d\<lparr>m_file_size := sz\<rparr>"

definition offset :: "'a Decompressor_scheme \<Rightarrow> size_t" where
  "offset d = m_offset d"

definition set_offset :: "size_t \<Rightarrow> 'a Decompressor_scheme \<Rightarrow> 'a Decompressor_scheme" where
  "set_offset off d = d\<lparr>m_offset := off\<rparr>"

definition want_buffered_pages_removed :: "'a Decompressor_scheme \<Rightarrow> bool" where
  "want_buffered_pages_removed d = m_want_buffered_pages_removed d"

definition set_want_buffered_pages_removed :: "bool \<Rightarrow> 'a Decompressor_scheme \<Rightarrow> 'a Decompressor_scheme" where
  "set_want_buffered_pages_removed v d = d\<lparr>m_want_buffered_pages_removed := v\<rparr>"

subsection \<open>class NoCompressor\<close>

text \<open>
  The fields \<open>m_file_size\<close> and \<open>m_fd\<close> of \<open>NoCompressor\<close>; the suffix keeps them apart
  from the fields of the same name in the decompressor classes.
\<close>

record NoCompressor = Compressor +
  m_file_size_c :: size_t
  m_fd_c :: int

definition NoCompressor_new :: "int \<Rightarrow> fsync \<Rightarrow> NoCompressor" where
  "NoCompressor_new fd sync = \<lparr>m_fsync = sync, m_file_size_c = 0, m_fd_c = fd\<rparr>"

definition NoCompressor_write ::
  "platform \<Rightarrow> string \<Rightarrow> NoCompressor \<Rightarrow> trace \<Rightarrow> error option \<times> NoCompressor \<times> trace" where
  "NoCompressor_write P data c tr =
     (case reliable_write P (m_fd_c c) data tr of
        (Some e, tr') \<Rightarrow> (Some e, c, tr')
      | (None, tr') \<Rightarrow> (None, c\<lparr>m_file_size_c := m_file_size_c c + of_nat (length data)\<rparr>, tr'))"

definition NoCompressor_close ::
  "platform \<Rightarrow> NoCompressor \<Rightarrow> trace \<Rightarrow> error option \<times> NoCompressor \<times> trace" where
  "NoCompressor_close P c tr =
     (if m_fd_c c \<ge> 0 then
        let fd = m_fd_c c;
            c' = c\<lparr>m_fd_c := - 1\<rparr>
        in if fd = 1 then (None, c', tr)
           else
             (case (if do_fsync c' then reliable_fsync P fd tr else (None, tr)) of
                (Some e, tr') \<Rightarrow> (Some e, c', tr')
              | (None, tr') \<Rightarrow>
                  (case reliable_close P fd tr' of (r, tr'') \<Rightarrow> (r, c', tr'')))
      else (None, c, tr))"

definition NoCompressor_file_size :: "NoCompressor \<Rightarrow> size_t" where
  "NoCompressor_file_size c = m_file_size_c c"

text \<open>The destructor calls \<open>close()\<close> and swallows whatever it throws.\<close>

definition NoCompressor_dtor :: "platform \<Rightarrow> NoCompressor \<Rightarrow> trace \<Rightarrow> trace" where
  "NoCompressor_dtor P c tr = (case NoCompressor_close P c tr of (r, c', tr') \<Rightarrow> tr')"

subsection \<open>class NoDecompressor\<close>

text \<open>
  \<open>m_buffer\<close> is a pointer: \<open>None\<close> is \<open>nullptr\<close>, \<open>Some mem\<close> points to the memory
  range with contents \<open>mem\<close>. \<open>m_offset_d\<close> is the private \<open>m_offset\<close> of
  \<open>NoDecompressor\<close>, which shadows the atomic counter of the base class.
\<close>

record NoDecompressor = Decompressor +
  m_fd_d :: int
  m_buffer :: "string option"
  m_buffer_size :: size_t
  m_offset_d :: size_t

definition NoDecompressor_fd :: "int \<Rightarrow> NoDecompressor" where
  "NoDecompressor_fd fd =
     \<lparr>m_file_size = 0, m_offset = 0, m_want_buffered_pages_removed = False,
      m_fd_d = fd, m_buffer = None, m_buffer_size = 0, m_offset_d = 0\<rparr>"

definition NoDecompressor_buffer :: "string option \<Rightarrow> size_t \<Rightarrow> NoDecompressor" where
  "NoDecompressor_buffer buffer sz =
     \<lparr>m_file_size = 0, m_offset = 0, m_want_buffered_pages_removed = False,
      m_fd_d = - 1, m_buffer = buffer, m_buffer_size = sz, m_offset_d = 0\<rparr>"

text \<open>The last three lines of \<open>read()\<close>: advance both offsets by the size of the chunk.\<close>

definition advance_offset :: "string \<Rightarrow> NoDecompressor \<Rightarrow> NoDecompressor" where
  "advance_offset buffer d =
     (let d' = d\<lparr>m_offset_d := m_offset_d d + of_nat (length buffer)\<rparr>
      in set_offset (m_offset_d d') d')"

definition NoDecompressor_read ::
  "platform \<Rightarrow> NoDecompressor \<Rightarrow> trace \<Rightarrow> (error + string) \<times> NoDecompressor \<times> trace" where
  "NoDecompressor_read P d tr =
     (case m_buffer d of
        Some mem \<Rightarrow>
          if m_buffer_size d \<noteq> 0 then
            let sz = m_buffer_size d;
                d' = d\<lparr>m_buffer_size := 0\<rparr>;
                buffer = take (unat sz) mem
            in (Inr buffer, advance_offset buffer d', tr)
          else (Inr [], advance_offset [] d, tr)
      | None \<Rightarrow>
          let tr1 = (if want_buffered_pages_removed d
                     then remove_buffered_pages (m_fd_d d) (m_offset_d d) tr else tr)
          in (case reliable_read P (m_fd_d d) input_buffer_size tr1 of
                (Inl e, tr2) \<Rightarrow> (Inl e, d, tr2)
              | (Inr buffer, tr2) \<Rightarrow> (Inr buffer, advance_offset buffer d, tr2)))"

definition NoDecompressor_close ::
  "platform \<Rightarrow> NoDecompressor \<Rightarrow> trace \<Rightarrow> error option \<times> NoDecompressor \<times> trace" where
  "NoDecompressor_close P d tr =
     (if m_fd_d d \<ge> 0 then
        let tr1 = (if want_buffered_pages_removed d
                   then remove_buffered_pages_all (m_fd_d d) tr else tr);
            fd = m_fd_d d;
            d' = d\<lparr>m_fd_d := - 1\<rparr>
        in (case reliable_close P fd tr1 of (r, tr2) \<Rightarrow> (r, d', tr2))
      else (None, d, tr))"

definition NoDecompressor_dtor :: "platform \<Rightarrow> NoDecompressor \<Rightarrow> trace \<Rightarrow> trace" where
  "NoDecompressor_dtor P d tr = (case NoDecompressor_close P d tr of (r, d', tr') \<Rightarrow> tr')"

subsection \<open>class CompressionFactory\<close>

text \<open>
  \<open>osmium::io::file_compression\<close> and its \<open>as_string\<close> are declared in
  \<open>file_compression.hpp\<close>; the factory only uses the identifier as a map key and prints it
  in the error message. The identifier type is the type variable \<open>'id\<close> and \<open>as_string\<close>
  is a parameter. The callbacks are arbitrary code: they may call the platform and may throw.
\<close>

type_synonym 'c create_compressor_type = "int \<Rightarrow> fsync \<Rightarrow> trace \<Rightarrow> (error + 'c) \<times> trace"
type_synonym 'd create_decompressor_type_fd = "int \<Rightarrow> trace \<Rightarrow> (error + 'd) \<times> trace"
type_synonym 'd create_decompressor_type_buffer =
  "string option \<Rightarrow> size_t \<Rightarrow> trace \<Rightarrow> (error + 'd) \<times> trace"

type_synonym ('c, 'd) callbacks_type =
  "'c create_compressor_type \<times> 'd create_decompressor_type_fd \<times> 'd create_decompressor_type_buffer"

type_synonym ('id, 'c, 'd) compression_map_type = "'id \<rightharpoonup> ('c, 'd) callbacks_type"

definition unsupported_message :: "string \<Rightarrow> string" where
  "unsupported_message name =
     ''Support for compression '' @ [CHR 0x27] @ name @ [CHR 0x27] @ '' not compiled into this binary''"

definition find_callbacks ::
  "('id \<Rightarrow> string) \<Rightarrow> ('id, 'c, 'd) compression_map_type \<Rightarrow> 'id \<Rightarrow> error + ('c, 'd) callbacks_type" where
  "find_callbacks as_string m_callbacks compression =
     (case m_callbacks compression of
        Some callbacks \<Rightarrow> Inr callbacks
      | None \<Rightarrow> Inl (unsupported_file_format_error (unsupported_message (as_string compression))))"

text \<open>\<open>std::map::insert\<close>: stores the pair unless the key is present, and says whether it did.\<close>

definition map_insert :: "('k \<rightharpoonup> 'v) \<Rightarrow> 'k \<times> 'v \<Rightarrow> ('k \<rightharpoonup> 'v) \<times> bool" where
  "map_insert m kv =
     (case m (fst kv) of None \<Rightarrow> (m(fst kv \<mapsto> snd kv), True) | Some v \<Rightarrow> (m, False))"

text \<open>\<open>register_compression\<close> returns the flag; the second component is the registry afterwards.\<close>

definition register_compression ::
  "('id, 'c, 'd) compression_map_type \<Rightarrow> 'id \<Rightarrow> 'c create_compressor_type \<Rightarrow>
   'd create_decompressor_type_fd \<Rightarrow> 'd create_decompressor_type_buffer \<Rightarrow>
   bool \<times> ('id, 'c, 'd) compression_map_type" where
  "register_compression m_callbacks compression create_compressor_cb create_decompressor_fd_cb
     create_decompressor_buffer_cb =
     (let cc = (compression,
                (create_compressor_cb, create_decompressor_fd_cb, create_decompressor_buffer_cb))
      in (snd (map_insert m_callbacks cc), fst (map_insert m_callbacks cc)))"

definition create_compressor ::
  "('id \<Rightarrow> string) \<Rightarrow> ('id, 'c, 'd) compression_map_type \<Rightarrow> 'id \<Rightarrow> int \<Rightarrow> fsync \<Rightarrow> trace \<Rightarrow>
   (error + 'c) \<times> trace" where
  "create_compressor as_string m_callbacks compression fd sync tr =
     (case find_callbacks as_string m_callbacks compression of
        Inl e \<Rightarrow> (Inl e, tr)
      | Inr callbacks \<Rightarrow> (fst callbacks) fd sync tr)"

text \<open>
  The descriptor variant queries the size of the file after the callback has built the
  object. When the query throws, the \<open>unique_ptr\<close> destroys the object on the way out:
  \<open>dtor\<close> is the (virtual) destructor of the objects the callbacks build.
\<close>

definition create_decompressor_fd ::
  "platform \<Rightarrow> ('x Decompressor_scheme \<Rightarrow> trace \<Rightarrow> trace) \<Rightarrow> ('id \<Rightarrow> string) \<Rightarrow>
   ('id, 'c, 'x Decompressor_scheme) compression_map_type \<Rightarrow> 'id \<Rightarrow> int \<Rightarrow> trace \<Rightarrow>
   (error + 'x Decompressor_scheme) \<times> trace" where
  "create_decompressor_fd P dtor as_string m_callbacks compression fd tr =
     (case find_callbacks as_string m_callbacks compression of
        Inl e \<Rightarrow> (Inl e, tr)
      | Inr callbacks \<Rightarrow>
          (case (fst (snd callbacks)) fd tr of
             (Inl e, tr1) \<Rightarrow> (Inl e, tr1)
           | (Inr p, tr1) \<Rightarrow>
               (case file_size P fd tr1 of
                  (Inl e, tr2) \<Rightarrow> (Inl e, dtor p tr2)
                | (Inr sz, tr2) \<Rightarrow> (Inr (set_file_size sz p), tr2))))"

definition create_decompressor_buffer ::
  "('id \<Rightarrow> string) \<Rightarrow> ('id, 'c, 'd) compression_map_type \<Rightarrow> 'id \<Rightarrow> string option \<Rightarrow> size_t \<Rightarrow>
   trace \<Rightarrow> (error + 'd) \<times> trace" where
  "create_decompressor_buffer as_string m_callbacks compression buffer sz tr =
     (case find_callbacks as_string m_callbacks compression of
        Inl e \<Rightarrow> (Inl e, tr)
      | Inr callbacks \<Rightarrow> (snd (snd callbacks)) buffer sz tr)"

text \<open>
  The registration at the end of the header (\<open>registered_no_compression\<close>): the identifier
  \<open>file_compression::none\<close> with the three lambdas that build the identity codec.
\<close>

definition registered_no_compression ::
  "'id \<Rightarrow> ('id, NoCompressor, NoDecompressor) compression_map_type \<Rightarrow>
   bool \<times> ('id, NoCompressor, NoDecompressor) compression_map_type" where
  "registered_no_compression none m_callbacks =
     register_compression m_callbacks none
       (\<lambda>fd sync tr. (Inr (NoCompressor_new fd sync), tr))
       (\<lambda>fd tr. (Inr (NoDecompressor_fd fd), tr))
       (\<lambda>buffer sz tr. (Inr (NoDecompressor_buffer buffer sz), tr))"

text \<open>A sequence of further registrations, each applied to the registry the previous one left.\<close>

fun register_all ::
  "('id, 'c, 'd) compression_map_type \<Rightarrow> ('id \<times> ('c, 'd) callbacks_type) list \<Rightarrow>
   ('id, 'c, 'd) compression_map_type" where
  "register_all m [] = m"
| "register_all m ((compression, cb) # rest) =
     register_all (snd (register_compression m compression (fst cb) (fst (snd cb)) (snd (snd cb)))) rest"

subsection \<open>Sequences of calls\<close>

text \<open>
  Successive \<open>write\<close> calls on one compressor; the first exception ends the sequence, as
  it would leave the calling block.
\<close>

fun NoCompressor_write_all ::
  "platform \<Rightarrow> string list \<Rightarrow> NoCompressor \<Rightarrow> trace \<Rightarrow> error option \<times> NoCompressor \<times> trace" where
  "NoCompressor_write_all P [] c tr = (None, c, tr)"
| "NoCompressor_write_all P (data # rest) c tr =
     (case NoCompressor_write P data c tr of
        (Some e, c', tr') \<Rightarrow> (Some e, c', tr')
      | (None, c', tr') \<Rightarrow> NoCompressor_write_all P rest c' tr')"

text \<open>
  The whole life of a compressor: construction, any calls of \<open>write\<close> and \<open>close\<close> by a
  caller that catches what they throw and goes on, then the destructor.
\<close>

datatype nc_call = nc_write string | nc_close

fun NoCompressor_calls ::
  "platform \<Rightarrow> nc_call list \<Rightarrow> NoCompressor \<Rightarrow> trace \<Rightarrow> NoCompressor \<times> trace" where
  "NoCompressor_calls P [] c tr = (c, tr)"
| "NoCompressor_calls P (nc_write data # rest) c tr =
     (case NoCompressor_write P data c tr of (r, c', tr') \<Rightarrow> NoCompressor_calls P rest c' tr')"
| "NoCompressor_calls P (nc_close # rest) c tr =
     (case NoCompressor_close P c tr of (r, c', tr') \<Rightarrow> NoCompressor_calls P rest c' tr')"

definition NoCompressor_lifetime :: "platform \<Rightarrow> int \<Rightarrow> fsync \<Rightarrow> nc_call list \<Rightarrow> trace" where
  "NoCompressor_lifetime P fd sync calls =
     (case NoCompressor_calls P calls (NoCompressor_new fd sync) [] of
        (c, tr) \<Rightarrow> NoCompressor_dtor P c tr)"

fun is_fsync :: "call \<Rightarrow> bool" where
  "is_fsync (call_reliable_fsync fd) = True"
| "is_fsync c = False"

fun is_close :: "call \<Rightarrow> bool" where
  "is_close (call_reliable_close fd) = True"
| "is_close c = False"

text \<open>Successive \<open>read\<close> calls on one decompressor, up to the first exception.\<close>

fun NoDecompressor_reads ::
  "platform \<Rightarrow> nat \<Rightarrow> NoDecompressor \<Rightarrow> trace \<Rightarrow> (error + string list) \<times> NoDecompressor \<times> trace" where
  "NoDecompressor_reads P 0 d tr = (Inr [], d, tr)"
| "NoDecompressor_reads P (Suc k) d tr =
     (case NoDecompressor_read P d tr of
        (Inl e, d', tr') \<Rightarrow> (Inl e, d', tr')
      | (Inr chunk, d', tr') \<Rightarrow>
          (case NoDecompressor_reads P k d' tr' of
             (Inl e, d'', tr'') \<Rightarrow> (Inl e, d'', tr'')
           | (Inr chunks, d'', tr'') \<Rightarrow> (Inr (chunk # chunks), d'', tr'')))"

text \<open>The number of bytes that the reads recorded in a transcript delivered from a descriptor.\<close>

fun consumed :: "int \<Rightarrow> trace \<Rightarrow> nat" where
  "consumed fd [] = 0"
| "consumed fd (call_reliable_read fd' n data # tr) =
     (if fd' = fd then length data else 0) + consumed fd tr"
| "consumed fd (c # tr) = consumed fd tr"

text \<open>
  A descriptor whose source is a fixed sequence of bytes: every read that asks for at
  least one byte succeeds and delivers the next bytes of \<open>content\<close>, at least one while
  any are left.
\<close>

definition static_source :: "platform \<Rightarrow> int \<Rightarrow> string \<Rightarrow> bool" where
  "static_source P fd content =
     (\<forall>tr n. 0 < n \<longrightarrow>
        (\<exists>k. 0 < k \<and> read_outcome P tr fd n = Inr (take k (drop (consumed fd tr) content))))"

subsection \<open>A concrete setting for the examples\<close>

text \<open>
  Modelled from the spec: "Algorithm identifier: a small closed enumeration (e.g. none, plus
  externally-registered values)", for codecs that are "gzip-like, bzip2-like". The header
  \<open>file_compression.hpp\<close> with the enumeration and its \<open>as_string\<close> is not part of the
  sources; \<open>file_compression_as_string\<close> stands for that \<open>as_string\<close>.
\<close>

datatype file_compression = none | gzip | bzip2

fun file_compression_as_string :: "file_compression \<Rightarrow> string" where
  "file_compression_as_string none = ''none''"
| "file_compression_as_string gzip = ''gzip''"
| "file_compression_as_string bzip2 = ''bzip2''"

text \<open>
  A platform on which every primitive succeeds. The bytes behind every descriptor are
  \<open>content\<close>; a read delivers the next \<open>chunk\<close> bytes at most, from the position that the
  reads recorded in the transcript have reached.
\<close>

definition file_platform :: "string \<Rightarrow> nat \<Rightarrow> platform" where
  "file_platform content chunk =
     \<lparr>write_outcome = (\<lambda>tr fd data. None),
      fsync_outcome = (\<lambda>tr fd. None),
      close_outcome = (\<lambda>tr fd. None),
      read_outcome = (\<lambda>tr fd n. Inr (take chunk (drop (consumed fd tr) content))),
      file_size_outcome = (\<lambda>tr fd. Inr (of_nat (length content)))\<rparr>"

text \<open>The same platform with an \<open>fsync\<close> that always fails.\<close>

definition failing_fsync_platform :: platform where
  "failing_fsync_platform =
     (file_platform [] 1)\<lparr>fsync_outcome := (\<lambda>tr fd. Some (system_error ''Fsync failed''))\<rparr>"

text \<open>
  Callbacks of an external codec that touch the platform as soon as they run: each one
  queries the size of its descriptor (descriptor 0 for the buffer variant) before it builds
  the object.
\<close>

definition eager_callbacks :: "platform \<Rightarrow> (NoCompressor, NoDecompressor) callbacks_type" where
  "eager_callbacks P =
     ((\<lambda>fd sync tr. (Inr (NoCompressor_new fd sync), snd (file_size P fd tr))),
      (\<lambda>fd tr. (Inr (NoDecompressor_fd fd), snd (file_size P fd tr))),
      (\<lambda>buffer sz tr. (Inr (NoDecompressor_buffer buffer sz), snd (file_size P 0 tr))))"

section \<open>Properties\<close>

subsection \<open>The registry\<close>

lemma find_callbacks_None:
  "m_callbacks compression = None \<Longrightarrow>
   find_callbacks as_string m_callbacks compression =
     Inl (unsupported_file_format_error (unsupported_message (as_string compression)))"
  by (simp add: find_callbacks_def)

lemma find_callbacks_Some:
  "m_callbacks compression = Some cb \<Longrightarrow> find_callbacks as_string m_callbacks compression = Inr cb"
  by (simp add: find_callbacks_def)

text \<open>
  C1. When the requested identifier has no entry in the registry, each of the three creation
  functions returns the unsupported-format error, whose message contains the name of the
  identifier between quotes, and the transcript of platform calls is the one it was given:
  no callback has run and no primitive has been called.
\<close>

theorem create_unregistered_fails:
  assumes "m_callbacks compression = None"
  shows "create_compressor as_string m_callbacks compression fd sync tr =
           (Inl (unsupported_file_format_error
              (''Support for compression '' @ [CHR 0x27] @ as_string compression @ [CHR 0x27]
                 @ '' not compiled into this binary'')), tr)
       \<and> create_decompressor_fd P dtor as_string m_callbacks compression fd tr =
           (Inl (unsupported_file_format_error
              (''Support for compression '' @ [CHR 0x27] @ as_string compression @ [CHR 0x27]
                 @ '' not compiled into this binary'')), tr)
       \<and> create_decompressor_buffer as_string m_callbacks compression buffer sz tr =
           (Inl (unsupported_file_format_error
              (''Support for compression '' @ [CHR 0x27] @ as_string compression @ [CHR 0x27]
                 @ '' not compiled into this binary'')), tr)"
  using assms
  by (simp add: create_compressor_def create_decompressor_fd_def create_decompressor_buffer_def
      find_callbacks_None unsupported_message_def)

theorem create_unregistered_fails_witness:
  "[gzip \<mapsto> eager_callbacks (file_platform [] 1)] bzip2 = None
   \<and> create_compressor file_compression_as_string [gzip \<mapsto> eager_callbacks (file_platform [] 1)] bzip2 3 fsync_yes []
       = (Inl (unsupported_file_format_error
            (''Support for compression '' @ [CHR 0x27] @ ''bzip2'' @ [CHR 0x27]
               @ '' not compiled into this binary'')), [])
   \<and> create_decompressor_fd (file_platform [] 1) (NoDecompressor_dtor (file_platform [] 1))
         file_compression_as_string [gzip \<mapsto> eager_callbacks (file_platform [] 1)] bzip2 3 []
       = (Inl (unsupported_file_format_error
            (''Support for compression '' @ [CHR 0x27] @ ''bzip2'' @ [CHR 0x27]
               @ '' not compiled into this binary'')), [])
   \<and> create_decompressor_buffer file_compression_as_string
         [gzip \<mapsto> eager_callbacks (file_platform [] 1)] bzip2
         (Some ''hello'') 5 []
       = (Inl (unsupported_file_format_error
            (''Support for compression '' @ [CHR 0x27] @ ''bzip2'' @ [CHR 0x27]
               @ '' not compiled into this binary'')), [])"
  using create_unregistered_fails
    [where m_callbacks = "[gzip \<mapsto> eager_callbacks (file_platform [] 1)]"
       and compression = bzip2 and as_string = file_compression_as_string and fd = 3 and sync = fsync_yes
       and tr = "[]" and P = "file_platform [] 1"
       and dtor = "NoDecompressor_dtor (file_platform [] 1)"
       and buffer = "Some ''hello''" and sz = 5]
  by simp

lemma register_compression_absent:
  "m compression = None \<Longrightarrow>
   register_compression m compression a b c = (True, m(compression \<mapsto> (a, b, c)))"
  by (simp add: register_compression_def map_insert_def)

lemma register_compression_present:
  "m compression = Some t \<Longrightarrow> register_compression m compression a b c = (False, m)"
  by (simp add: register_compression_def map_insert_def)

lemma register_compression_keeps:
  "m compression = Some t \<Longrightarrow> snd (register_compression m other a b c) compression = Some t"
  by (cases "m other") (auto simp: register_compression_def map_insert_def)

lemma register_all_keeps:
  "m compression = Some t \<Longrightarrow> register_all m later compression = Some t"
proof (induction later arbitrary: m)
  case Nil
  then show ?case by simp
next
  case (Cons reg later)
  obtain other cb where reg: "reg = (other, cb)" by (cases reg)
  from Cons.prems have "snd (register_compression m other (fst cb) (fst (snd cb)) (snd (snd cb))) compression = Some t"
    by (rule register_compression_keeps)
  then show ?case using Cons.IH reg by simp
qed

text \<open>
  C2. Registering an identifier that has no entry returns true and stores the triple. After
  any further registrations, registering the same identifier again returns false and leaves
  the registry as it is, and lookup and all three creation functions still use the callbacks
  of the first registration. \<open>register_compression\<close> has no error result.
\<close>

theorem register_compression_first_wins:
  assumes "m_callbacks compression = None"
  shows "register_compression m_callbacks compression cc cdfd cdbuf
           = (True, m_callbacks(compression \<mapsto> (cc, cdfd, cdbuf)))
       \<and> (\<forall>later.
            register_compression
                (register_all (m_callbacks(compression \<mapsto> (cc, cdfd, cdbuf))) later)
                compression cc' cdfd' cdbuf'
              = (False, register_all (m_callbacks(compression \<mapsto> (cc, cdfd, cdbuf))) later)
          \<and> find_callbacks to_string
                (register_all (m_callbacks(compression \<mapsto> (cc, cdfd, cdbuf))) later) compression
              = Inr (cc, cdfd, cdbuf)
          \<and> create_compressor to_string
                (register_all (m_callbacks(compression \<mapsto> (cc, cdfd, cdbuf))) later)
                compression fd sync tr
              = cc fd sync tr
          \<and> create_decompressor_fd P dtor to_string
                (register_all (m_callbacks(compression \<mapsto> (cc, cdfd, cdbuf))) later)
                compression fd tr
              = create_decompressor_fd P dtor to_string [compression \<mapsto> (cc, cdfd, cdbuf)]
                  compression fd tr
          \<and> create_decompressor_buffer to_string
                (register_all (m_callbacks(compression \<mapsto> (cc, cdfd, cdbuf))) later)
                compression buffer sz tr
              = cdbuf buffer sz tr)"
proof (intro conjI allI)
  show "register_compression m_callbacks compression cc cdfd cdbuf
           = (True, m_callbacks(compression \<mapsto> (cc, cdfd, cdbuf)))"
    using assms by (rule register_compression_absent)
next
  fix later
  let ?m2 = "register_all (m_callbacks(compression \<mapsto> (cc, cdfd, cdbuf))) later"
  have kept: "?m2 compression = Some (cc, cdfd, cdbuf)"
    by (rule register_all_keeps) simp
  show "register_compression ?m2 compression cc' cdfd' cdbuf' = (False, ?m2)"
    using kept by (rule register_compression_present)
  show "find_callbacks to_string ?m2 compression = Inr (cc, cdfd, cdbuf)"
    using kept by (rule find_callbacks_Some)
  show "create_compressor to_string ?m2 compression fd sync tr = cc fd sync tr"
    using kept by (simp add: create_compressor_def find_callbacks_Some)
  show "create_decompressor_fd P dtor to_string ?m2 compression fd tr
          = create_decompressor_fd P dtor to_string [compression \<mapsto> (cc, cdfd, cdbuf)] compression fd tr"
    using kept by (simp add: create_decompressor_fd_def find_callbacks_Some)
  show "create_decompressor_buffer to_string ?m2 compression buffer sz tr = cdbuf buffer sz tr"
    using kept by (simp add: create_decompressor_buffer_def find_callbacks_Some)
qed

theorem register_compression_first_wins_witness:
  "(Map.empty :: (file_compression, NoCompressor, NoDecompressor) compression_map_type) none = None
   \<and> registered_no_compression none Map.empty
       = (True, [none \<mapsto> ((\<lambda>fd sync tr. (Inr (NoCompressor_new fd sync), tr)),
                          (\<lambda>fd tr. (Inr (NoDecompressor_fd fd), tr)),
                          (\<lambda>buffer sz tr. (Inr (NoDecompressor_buffer buffer sz), tr)))])
   \<and> register_compression
        (register_all
           [none \<mapsto> ((\<lambda>fd sync tr. (Inr (NoCompressor_new fd sync), tr)),
                      (\<lambda>fd tr. (Inr (NoDecompressor_fd fd), tr)),
                      (\<lambda>buffer sz tr. (Inr (NoDecompressor_buffer buffer sz), tr)))]
           [(gzip, eager_callbacks (file_platform [] 1)), (none, eager_callbacks (file_platform [] 1))])
        none
        (fst (eager_callbacks (file_platform [] 1)))
        (fst (snd (eager_callbacks (file_platform [] 1))))
        (snd (snd (eager_callbacks (file_platform [] 1))))
       = (False,
          register_all
           [none \<mapsto> ((\<lambda>fd sync tr. (Inr (NoCompressor_new fd sync), tr)),
                      (\<lambda>fd tr. (Inr (NoDecompressor_fd fd), tr)),
                      (\<lambda>buffer sz tr. (Inr (NoDecompressor_buffer buffer sz), tr)))]
           [(gzip, eager_callbacks (file_platform [] 1)), (none, eager_callbacks (file_platform [] 1))])
   \<and> create_compressor file_compression_as_string
        (register_all
           [none \<mapsto> ((\<lambda>fd sync tr. (Inr (NoCompressor_new fd sync), tr)),
                      (\<lambda>fd tr. (Inr (NoDecompressor_fd fd), tr)),
                      (\<lambda>buffer sz tr. (Inr (NoDecompressor_buffer buffer sz), tr)))]
           [(gzip, eager_callbacks (file_platform [] 1)), (none, eager_callbacks (file_platform [] 1))])
        none 3 fsync_yes []
       = (Inr (NoCompressor_new 3 fsync_yes), [])"
proof -
  have absent:
    "(Map.empty :: (file_compression, NoCompressor, NoDecompressor) compression_map_type) none = None"
    by simp
  note first_wins = register_compression_first_wins
    [where m_callbacks = "Map.empty :: (file_compression, NoCompressor, NoDecompressor) compression_map_type"
       and compression = none
       and cc = "\<lambda>fd sync tr. (Inr (NoCompressor_new fd sync), tr)"
       and cdfd = "\<lambda>fd tr. (Inr (NoDecompressor_fd fd), tr)"
       and cdbuf = "\<lambda>buffer sz tr. (Inr (NoDecompressor_buffer buffer sz), tr)"
       and cc' = "fst (eager_callbacks (file_platform [] 1))"
       and cdfd' = "fst (snd (eager_callbacks (file_platform [] 1)))"
       and cdbuf' = "snd (snd (eager_callbacks (file_platform [] 1)))"
       and to_string = file_compression_as_string and fd = 3 and sync = fsync_yes and tr = "[]",
     OF absent]
  from first_wins have reg: "registered_no_compression none Map.empty
       = (True, [none \<mapsto> ((\<lambda>fd sync tr. (Inr (NoCompressor_new fd sync), tr)),
                          (\<lambda>fd tr. (Inr (NoDecompressor_fd fd), tr)),
                          (\<lambda>buffer sz tr. (Inr (NoDecompressor_buffer buffer sz), tr)))])"
    unfolding registered_no_compression_def by (rule conjunct1)
  from first_wins [THEN conjunct2, THEN spec,
      of "[(gzip, eager_callbacks (file_platform [] 1)), (none, eager_callbacks (file_platform [] 1))]"]
  show ?thesis using absent reg by blast
qed

subsection \<open>NoCompressor\<close>

lemma NoCompressor_close_closed:
  "m_fd_c c < 0 \<Longrightarrow> NoCompressor_close P c tr = (None, c, tr)"
  by (simp add: NoCompressor_close_def)

lemma NoCompressor_close_marks_closed:
  "NoCompressor_close P c tr = (r, c', tr') \<Longrightarrow> m_fd_c c' < 0"
  by (auto simp: NoCompressor_close_def Let_def reliable_fsync_def reliable_close_def
      split: if_splits prod.splits option.splits)

lemma NoCompressor_close_file_size:
  "NoCompressor_close P c tr = (r, c', tr') \<Longrightarrow> m_file_size_c c' = m_file_size_c c \<and> m_fsync c' = m_fsync c"
  by (auto simp: NoCompressor_close_def Let_def reliable_fsync_def reliable_close_def
      split: if_splits prod.splits option.splits)

lemma NoCompressor_close_trace:
  assumes "NoCompressor_close P c tr = (r, c', tr')"
  shows "tr' = tr @
           (if m_fd_c c < 0 \<or> m_fd_c c = 1 then []
            else if m_fsync c = fsync_yes
              then call_reliable_fsync (m_fd_c c) #
                   (if fsync_outcome P tr (m_fd_c c) = None then [call_reliable_close (m_fd_c c)] else [])
              else [call_reliable_close (m_fd_c c)])"
  using assms
  by (auto simp: NoCompressor_close_def Let_def reliable_fsync_def reliable_close_def do_fsync_def
      split: if_splits prod.splits option.splits)

text \<open>
  C3. After \<open>close()\<close> has run, on whatever transcript, a further \<open>close()\<close> returns normally
  and changes neither the object nor the transcript. When the descriptor is standard output
  (descriptor 1), \<open>close()\<close> calls neither \<open>fsync\<close> nor \<open>close\<close> on it. For any other
  owned descriptor (not negative): with the sync policy \<open>yes\<close> the calls are the \<open>fsync\<close> of the
  descriptor, followed by its \<open>close\<close> unless the \<open>fsync\<close> has thrown; with any other policy
  the only call is the \<open>close\<close> of the descriptor. An object that owns no descriptor
  (negative \<open>m_fd\<close>) is left as it is.
\<close>

theorem NoCompressor_close_behaviour:
  assumes "NoCompressor_close P c tr = (r, c', tr')"
  shows "(\<forall>tr''. NoCompressor_close P c' tr'' = (None, c', tr''))
       \<and> (m_fd_c c = 1 \<longrightarrow> r = None \<and> tr' = tr)
       \<and> (0 \<le> m_fd_c c \<and> m_fd_c c \<noteq> 1 \<and> m_fsync c = fsync_yes \<longrightarrow>
            tr' = tr @ call_reliable_fsync (m_fd_c c) #
                       (if fsync_outcome P tr (m_fd_c c) = None
                        then [call_reliable_close (m_fd_c c)] else []))
       \<and> (0 \<le> m_fd_c c \<and> m_fd_c c \<noteq> 1 \<and> m_fsync c \<noteq> fsync_yes \<longrightarrow>
            tr' = tr @ [call_reliable_close (m_fd_c c)])
       \<and> (m_fd_c c < 0 \<longrightarrow> r = None \<and> c' = c \<and> tr' = tr)"
proof (intro conjI allI impI)
  fix tr''
  from assms have "m_fd_c c' < 0" by (rule NoCompressor_close_marks_closed)
  then show "NoCompressor_close P c' tr'' = (None, c', tr'')" by (rule NoCompressor_close_closed)
next
  assume "m_fd_c c = 1"
  with assms show "r = None" by (simp add: NoCompressor_close_def)
next
  assume "m_fd_c c = 1"
  with NoCompressor_close_trace [OF assms] show "tr' = tr" by simp
next
  assume "0 \<le> m_fd_c c \<and> m_fd_c c \<noteq> 1 \<and> m_fsync c = fsync_yes"
  with NoCompressor_close_trace [OF assms]
  show "tr' = tr @ call_reliable_fsync (m_fd_c c) #
                       (if fsync_outcome P tr (m_fd_c c) = None
                        then [call_reliable_close (m_fd_c c)] else [])" by simp
next
  assume "0 \<le> m_fd_c c \<and> m_fd_c c \<noteq> 1 \<and> m_fsync c \<noteq> fsync_yes"
  with NoCompressor_close_trace [OF assms]
  show "tr' = tr @ [call_reliable_close (m_fd_c c)]" by simp
next
  assume "m_fd_c c < 0"
  with assms show "r = None" "c' = c" "tr' = tr" by (simp_all add: NoCompressor_close_def)
qed

theorem NoCompressor_close_behaviour_witness:
  "NoCompressor_close (file_platform [] 1) (NoCompressor_new 3 fsync_yes) []
     = (None, (NoCompressor_new 3 fsync_yes)\<lparr>m_fd_c := - 1\<rparr>,
        [call_reliable_fsync 3, call_reliable_close 3])
   \<and> NoCompressor_close (file_platform [] 1) ((NoCompressor_new 3 fsync_yes)\<lparr>m_fd_c := - 1\<rparr>)
        [call_reliable_fsync 3, call_reliable_close 3]
     = (None, (NoCompressor_new 3 fsync_yes)\<lparr>m_fd_c := - 1\<rparr>,
        [call_reliable_fsync 3, call_reliable_close 3])
   \<and> NoCompressor_close (file_platform [] 1) (NoCompressor_new 1 fsync_yes) []
     = (None, (NoCompressor_new 1 fsync_yes)\<lparr>m_fd_c := - 1\<rparr>, [])
   \<and> NoCompressor_close (file_platform [] 1) ((NoCompressor_new 1 fsync_yes)\<lparr>m_fd_c := - 1\<rparr>) []
     = (None, (NoCompressor_new 1 fsync_yes)\<lparr>m_fd_c := - 1\<rparr>, [])"
proof -
  have first: "NoCompressor_close (file_platform [] 1) (NoCompressor_new 3 fsync_yes) []
     = (None, (NoCompressor_new 3 fsync_yes)\<lparr>m_fd_c := - 1\<rparr>,
        [call_reliable_fsync 3, call_reliable_close 3])"
    by (simp add: NoCompressor_close_def NoCompressor_new_def do_fsync_def reliable_fsync_def
        reliable_close_def file_platform_def)
  have stdout: "NoCompressor_close (file_platform [] 1) (NoCompressor_new 1 fsync_yes) []
     = (None, (NoCompressor_new 1 fsync_yes)\<lparr>m_fd_c := - 1\<rparr>, [])"
    by (simp add: NoCompressor_close_def NoCompressor_new_def)
  from NoCompressor_close_behaviour [OF first] NoCompressor_close_behaviour [OF stdout]
    first stdout
  show ?thesis by blast
qed

lemma NoCompressor_write_potential:
  assumes "NoCompressor_write P data c tr = (r, c', tr')"
  shows "m_fd_c c' = m_fd_c c \<and> filter is_fsync tr' = filter is_fsync tr
       \<and> filter is_close tr' = filter is_close tr"
  using assms
  by (auto simp: NoCompressor_write_def reliable_write_def split: option.splits)

lemma NoCompressor_close_potential:
  assumes "NoCompressor_close P c tr = (r, c', tr')"
  shows "length (filter is_fsync tr') \<le> length (filter is_fsync tr) + (if 0 \<le> m_fd_c c then 1 else 0)
       \<and> length (filter is_close tr') \<le> length (filter is_close tr) + (if 0 \<le> m_fd_c c then 1 else 0)"
  using NoCompressor_close_trace [OF assms] by auto

lemma NoCompressor_calls_potential:
  "NoCompressor_calls P calls c tr = (c', tr') \<Longrightarrow>
   length (filter is_fsync tr') + (if 0 \<le> m_fd_c c' then 1 else 0)
     \<le> length (filter is_fsync tr) + (if 0 \<le> m_fd_c c then 1 else 0)
   \<and> length (filter is_close tr') + (if 0 \<le> m_fd_c c' then 1 else 0)
     \<le> length (filter is_close tr) + (if 0 \<le> m_fd_c c then 1 else 0)"
proof (induction P calls c tr rule: NoCompressor_calls.induct)
  case (1 P c tr)
  then show ?case by simp
next
  case (2 P data rest c tr)
  obtain r c1 tr1 where w: "NoCompressor_write P data c tr = (r, c1, tr1)"
    by (cases "NoCompressor_write P data c tr") auto
  with 2 have "NoCompressor_calls P rest c1 tr1 = (c', tr')" by simp
  from "2.IH" [OF w [symmetric] refl this] NoCompressor_write_potential [OF w]
  show ?case by simp
next
  case (3 P rest c tr)
  obtain r c1 tr1 where cl: "NoCompressor_close P c tr = (r, c1, tr1)"
    by (cases "NoCompressor_close P c tr") auto
  with 3 have "NoCompressor_calls P rest c1 tr1 = (c', tr')" by simp
  from "3.IH" [OF cl [symmetric] refl this] NoCompressor_close_potential [OF cl]
    NoCompressor_close_marks_closed [OF cl]
  show ?case by (auto split: if_splits)
qed

text \<open>
  C10. Whatever \<open>close()\<close> returns or throws, the object it leaves has a negative \<open>m_fd\<close>,
  and on that object every later \<open>close()\<close> and the destructor call no platform primitive.
  Over the whole life of a compressor (construction, any sequence of \<open>write\<close> and
  \<open>close\<close> calls whose exceptions the caller catches, destruction) the transcript contains
  at most one \<open>fsync\<close> and at most one \<open>close\<close>.
\<close>

theorem NoCompressor_platform_close_at_most_once:
  "(NoCompressor_close P c tr = (r, c', tr') \<longrightarrow>
      m_fd_c c' < 0
      \<and> (\<forall>tr''. NoCompressor_close P c' tr'' = (None, c', tr'')
                \<and> NoCompressor_dtor P c' tr'' = tr''))
   \<and> length (filter is_fsync (NoCompressor_lifetime P fd sync calls)) \<le> 1
   \<and> length (filter is_close (NoCompressor_lifetime P fd sync calls)) \<le> 1"
proof (intro conjI impI allI)
  assume cl: "NoCompressor_close P c tr = (r, c', tr')"
  then show closed: "m_fd_c c' < 0" by (rule NoCompressor_close_marks_closed)
  fix tr''
  from closed show "NoCompressor_close P c' tr'' = (None, c', tr'')"
    by (rule NoCompressor_close_closed)
  then show "NoCompressor_dtor P c' tr'' = tr''" by (simp add: NoCompressor_dtor_def)
next
  obtain c1 tr1 where run: "NoCompressor_calls P calls (NoCompressor_new fd sync) [] = (c1, tr1)"
    by (cases "NoCompressor_calls P calls (NoCompressor_new fd sync) []") auto
  obtain r2 c2 tr2 where cl: "NoCompressor_close P c1 tr1 = (r2, c2, tr2)"
    by (cases "NoCompressor_close P c1 tr1") auto
  have life: "NoCompressor_lifetime P fd sync calls = tr2"
    using run cl by (simp add: NoCompressor_lifetime_def NoCompressor_dtor_def)
  from NoCompressor_calls_potential [OF run] NoCompressor_close_potential [OF cl]
  show "length (filter is_fsync (NoCompressor_lifetime P fd sync calls)) \<le> 1"
    and "length (filter is_close (NoCompressor_lifetime P fd sync calls)) \<le> 1"
    unfolding life by (auto split: if_splits)
qed

theorem NoCompressor_platform_close_at_most_once_witness:
  "NoCompressor_close failing_fsync_platform (NoCompressor_new 3 fsync_yes) []
     = (Some (system_error ''Fsync failed''), (NoCompressor_new 3 fsync_yes)\<lparr>m_fd_c := - 1\<rparr>,
        [call_reliable_fsync 3])
   \<and> NoCompressor_close failing_fsync_platform ((NoCompressor_new 3 fsync_yes)\<lparr>m_fd_c := - 1\<rparr>)
        [call_reliable_fsync 3]
     = (None, (NoCompressor_new 3 fsync_yes)\<lparr>m_fd_c := - 1\<rparr>, [call_reliable_fsync 3])
   \<and> NoCompressor_dtor failing_fsync_platform ((NoCompressor_new 3 fsync_yes)\<lparr>m_fd_c := - 1\<rparr>)
        [call_reliable_fsync 3]
     = [call_reliable_fsync 3]
   \<and> NoCompressor_lifetime failing_fsync_platform 3 fsync_yes [nc_write ''ab'', nc_close, nc_close]
     = [call_reliable_write 3 ''ab'', call_reliable_fsync 3]
   \<and> length (filter is_fsync
        (NoCompressor_lifetime failing_fsync_platform 3 fsync_yes [nc_write ''ab'', nc_close, nc_close]))
       \<le> 1"
proof -
  have first: "NoCompressor_close failing_fsync_platform (NoCompressor_new 3 fsync_yes) []
     = (Some (system_error ''Fsync failed''), (NoCompressor_new 3 fsync_yes)\<lparr>m_fd_c := - 1\<rparr>,
        [call_reliable_fsync 3])"
    by (simp add: NoCompressor_close_def NoCompressor_new_def do_fsync_def reliable_fsync_def
        reliable_close_def failing_fsync_platform_def file_platform_def)
  have life: "NoCompressor_lifetime failing_fsync_platform 3 fsync_yes [nc_write ''ab'', nc_close, nc_close]
     = [call_reliable_write 3 ''ab'', call_reliable_fsync 3]"
    by (simp add: NoCompressor_lifetime_def NoCompressor_dtor_def NoCompressor_close_def
        NoCompressor_write_def NoCompressor_new_def do_fsync_def reliable_fsync_def
        reliable_close_def reliable_write_def failing_fsync_platform_def file_platform_def)
  note once = NoCompressor_platform_close_at_most_once
    [where P = failing_fsync_platform and c = "NoCompressor_new 3 fsync_yes" and tr = "[]"
       and r = "Some (system_error ''Fsync failed'')"
       and c' = "(NoCompressor_new 3 fsync_yes)\<lparr>m_fd_c := - 1\<rparr>"
       and tr' = "[call_reliable_fsync 3]" and fd = 3 and sync = fsync_yes
       and calls = "[nc_write ''ab'', nc_close, nc_close]"]
  from once [THEN conjunct1, rule_format, OF first] once [THEN conjunct2] first life
  show ?thesis by blast
qed

lemma NoCompressor_write_ok:
  assumes "NoCompressor_write P data c tr = (None, c', tr')"
  shows "tr' = tr @ [call_reliable_write (m_fd_c c) data]
       \<and> c' = c\<lparr>m_file_size_c := m_file_size_c c + of_nat (length data)\<rparr>"
  using assms by (auto simp: NoCompressor_write_def reliable_write_def split: option.splits)

lemma NoCompressor_write_all_ok:
  "NoCompressor_write_all P chunks c tr = (None, c', tr') \<Longrightarrow>
   tr' = tr @ map (call_reliable_write (m_fd_c c)) chunks
   \<and> m_file_size_c c' = m_file_size_c c + of_nat (sum_list (map length chunks))"
proof (induction chunks arbitrary: c tr)
  case Nil
  then show ?case by simp
next
  case (Cons data rest)
  obtain r c1 tr1 where w: "NoCompressor_write P data c tr = (r, c1, tr1)"
    by (cases "NoCompressor_write P data c tr") auto
  with Cons.prems have r: "r = None" by (cases r) auto
  with w Cons.prems have rest: "NoCompressor_write_all P rest c1 tr1 = (None, c', tr')" by simp
  from w r have step: "tr1 = tr @ [call_reliable_write (m_fd_c c) data]"
    "c1 = c\<lparr>m_file_size_c := m_file_size_c c + of_nat (length data)\<rparr>"
    using NoCompressor_write_ok by blast+
  from Cons.IH [OF rest] step show ?case by simp
qed

text \<open>
  C4. When every \<open>write\<close> of a sequence returns normally, the sequence adds to the
  transcript exactly one platform write per chunk, in order, on the descriptor of the
  compressor and with the bytes of the chunk, and \<open>file_size()\<close> grows by the sum of the
  lengths of the chunks (in \<open>size_t\<close> arithmetic; for a counter that started at 0 and a
  sum below \<open>2^64\<close> it is that sum as a number). A \<open>close()\<close> and a second \<open>close()\<close>
  leave \<open>file_size()\<close> as it is, and the second one returns normally without any call.
\<close>

theorem NoCompressor_file_size_counts_written:
  assumes "NoCompressor_write_all P chunks c tr = (None, c1, tr1)"
      and "NoCompressor_close P c1 tr1 = (r2, c2, tr2)"
      and "NoCompressor_close P c2 tr2 = (r3, c3, tr3)"
  shows "tr1 = tr @ map (call_reliable_write (m_fd_c c)) chunks
       \<and> NoCompressor_file_size c1
           = NoCompressor_file_size c + of_nat (sum_list (map length chunks))
       \<and> (NoCompressor_file_size c = 0 \<and> sum_list (map length chunks) < 2 ^ 64 \<longrightarrow>
            unat (NoCompressor_file_size c1) = sum_list (map length chunks))
       \<and> NoCompressor_file_size c2 = NoCompressor_file_size c1
       \<and> r3 = None \<and> tr3 = tr2
       \<and> NoCompressor_file_size c3 = NoCompressor_file_size c1"
proof -
  note w = NoCompressor_write_all_ok [OF assms(1)]
  have closed: "m_fd_c c2 < 0" using assms(2) by (rule NoCompressor_close_marks_closed)
  have second: "(r3, c3, tr3) = (None, c2, tr2)"
    using NoCompressor_close_closed [OF closed, of P tr2] assms(3) by simp
  have size2: "m_file_size_c c2 = m_file_size_c c1"
    using NoCompressor_close_file_size [OF assms(2)] by simp
  have exact: "unat (NoCompressor_file_size c1) = sum_list (map length chunks)"
    if "NoCompressor_file_size c = 0" "sum_list (map length chunks) < 2 ^ 64"
    using that w by (simp add: NoCompressor_file_size_def unat_of_nat)
  show ?thesis
    using w second size2 exact by (simp add: NoCompressor_file_size_def)
qed

theorem NoCompressor_file_size_counts_written_witness:
  "NoCompressor_write_all (file_platform [] 1) [''ab'', ''cd''] (NoCompressor_new 3 fsync_no) []
     = (None, (NoCompressor_new 3 fsync_no)\<lparr>m_file_size_c := 4\<rparr>,
        [call_reliable_write 3 ''ab'', call_reliable_write 3 ''cd''])
   \<and> NoCompressor_file_size ((NoCompressor_new 3 fsync_no)\<lparr>m_file_size_c := 4\<rparr>) = 4
   \<and> unat (NoCompressor_file_size ((NoCompressor_new 3 fsync_no)\<lparr>m_file_size_c := 4\<rparr>)) = 4
   \<and> NoCompressor_close (file_platform [] 1)
        ((NoCompressor_new 3 fsync_no)\<lparr>m_file_size_c := 4, m_fd_c := - 1\<rparr>)
        [call_reliable_write 3 ''ab'', call_reliable_write 3 ''cd'', call_reliable_close 3]
     = (None, (NoCompressor_new 3 fsync_no)\<lparr>m_file_size_c := 4, m_fd_c := - 1\<rparr>,
        [call_reliable_write 3 ''ab'', call_reliable_write 3 ''cd'', call_reliable_close 3])
   \<and> NoCompressor_file_size ((NoCompressor_new 3 fsync_no)\<lparr>m_file_size_c := 4, m_fd_c := - 1\<rparr>) = 4"
proof -
  have w: "NoCompressor_write_all (file_platform [] 1) [''ab'', ''cd''] (NoCompressor_new 3 fsync_no) []
     = (None, (NoCompressor_new 3 fsync_no)\<lparr>m_file_size_c := 4\<rparr>,
        [call_reliable_write 3 ''ab'', call_reliable_write 3 ''cd''])"
    by (simp add: NoCompressor_write_def NoCompressor_new_def reliable_write_def file_platform_def)
  have c1: "NoCompressor_close (file_platform [] 1) ((NoCompressor_new 3 fsync_no)\<lparr>m_file_size_c := 4\<rparr>)
        [call_reliable_write 3 ''ab'', call_reliable_write 3 ''cd'']
     = (None, (NoCompressor_new 3 fsync_no)\<lparr>m_file_size_c := 4, m_fd_c := - 1\<rparr>,
        [call_reliable_write 3 ''ab'', call_reliable_write 3 ''cd'', call_reliable_close 3])"
    by (simp add: NoCompressor_close_def NoCompressor_new_def do_fsync_def reliable_close_def
        file_platform_def)
  have c2: "NoCompressor_close (file_platform [] 1)
        ((NoCompressor_new 3 fsync_no)\<lparr>m_file_size_c := 4, m_fd_c := - 1\<rparr>)
        [call_reliable_write 3 ''ab'', call_reliable_write 3 ''cd'', call_reliable_close 3]
     = (None, (NoCompressor_new 3 fsync_no)\<lparr>m_file_size_c := 4, m_fd_c := - 1\<rparr>,
        [call_reliable_write 3 ''ab'', call_reliable_write 3 ''cd'', call_reliable_close 3])"
    by (simp add: NoCompressor_close_def NoCompressor_new_def)
  from NoCompressor_file_size_counts_written [OF w c1 c2] w c2
  show ?thesis by (simp add: NoCompressor_file_size_def NoCompressor_new_def)
qed

subsection \<open>NoDecompressor\<close>

lemma NoDecompressor_read_exhausted:
  assumes "m_buffer d = Some mem" and "m_buffer_size d = 0" and "m_offset d = m_offset_d d"
  shows "NoDecompressor_read P d tr = (Inr [], d, tr)"
  using assms by (simp add: NoDecompressor_read_def advance_offset_def set_offset_def)

lemma NoDecompressor_reads_exhausted:
  assumes "m_buffer d = Some mem" and "m_buffer_size d = 0" and "m_offset d = m_offset_d d"
  shows "NoDecompressor_reads P k d tr = (Inr (replicate k []), d, tr)"
  by (induction k) (simp_all add: NoDecompressor_read_exhausted [OF assms])

lemma size_t_of_length:
  "length (b :: string) < 2 ^ 64 \<Longrightarrow> unat (of_nat (length b) :: size_t) = length b"
  by (simp add: unat_of_nat)

text \<open>
  C5. A \<open>NoDecompressor\<close> built over a buffer \<open>b\<close> with its length (a non-null pointer,
  and a length that fits \<open>size_t\<close>): the first \<open>read()\<close> returns the whole of \<open>b\<close> and
  calls no platform primitive; in the state it leaves, \<open>offset()\<close> is the length of \<open>b\<close>,
  and every later \<open>read()\<close>, however many, returns the empty chunk and leaves that state
  as it is.
\<close>

theorem NoDecompressor_buffer_reads:
  assumes "length b < 2 ^ 64"
      and "d0 = set_want_buffered_pages_removed v
                  (set_file_size s (NoDecompressor_buffer (Some b) (of_nat (length b))))"
  shows "\<exists>d1. NoDecompressor_read P d0 tr = (Inr b, d1, tr)
            \<and> offset d1 = of_nat (length b) \<and> unat (offset d1) = length b
            \<and> (\<forall>tr'. NoDecompressor_read P d1 tr' = (Inr [], d1, tr'))
            \<and> (\<forall>k tr'. NoDecompressor_reads P k d1 tr' = (Inr (replicate k []), d1, tr'))"
proof -
  let ?d1 = "d0\<lparr>m_offset := of_nat (length b), m_buffer_size := 0, m_offset_d := of_nat (length b)\<rparr>"
  note len = size_t_of_length [OF assms(1)]
  have d0: "m_buffer d0 = Some b" "m_buffer_size d0 = of_nat (length b)" "m_offset_d d0 = 0"
    "m_offset d0 = 0"
    by (simp_all add: assms(2) NoDecompressor_buffer_def set_file_size_def
        set_want_buffered_pages_removed_def)
  have first: "NoDecompressor_read P d0 tr = (Inr b, ?d1, tr)"
  proof (cases "b = []")
    case True
    have "d0 = ?d1" using d0 True by simp
    with True d0 show ?thesis
      using NoDecompressor_read_exhausted [of d0 b P tr] by simp
  next
    case False
    then have "(of_nat (length b) :: size_t) \<noteq> 0"
      using len by (metis length_0_conv unat_0)
    with d0 len show ?thesis
      by (simp add: NoDecompressor_read_def advance_offset_def set_offset_def Let_def)
  qed
  have d1: "m_buffer ?d1 = Some b" "m_buffer_size ?d1 = 0" "m_offset ?d1 = m_offset_d ?d1"
    using d0 by simp_all
  have off: "offset ?d1 = of_nat (length b)" by (simp add: offset_def)
  show ?thesis
    using first off len NoDecompressor_read_exhausted [OF d1] NoDecompressor_reads_exhausted [OF d1]
    by (intro exI [of _ ?d1]) simp
qed

theorem NoDecompressor_buffer_reads_witness:
  "length ''hello'' < (2::nat) ^ 64
   \<and> fst (NoDecompressor_read (file_platform [] 1) (NoDecompressor_buffer (Some ''hello'') 5) [])
       = Inr ''hello''
   \<and> (\<exists>d1. NoDecompressor_read (file_platform [] 1) (NoDecompressor_buffer (Some ''hello'') 5) []
              = (Inr ''hello'', d1, [])
          \<and> NoDecompressor_read (file_platform [] 1) d1 [] = (Inr [], d1, [])
          \<and> offset d1 = 5)"
proof -
  have len: "length ''hello'' < (2::nat) ^ 64" by simp
  have d0: "NoDecompressor_buffer (Some ''hello'') 5
    = set_want_buffered_pages_removed False
        (set_file_size 0 (NoDecompressor_buffer (Some ''hello'') (of_nat (length ''hello''))))"
    by (simp add: NoDecompressor_buffer_def set_file_size_def set_want_buffered_pages_removed_def)
  from NoDecompressor_buffer_reads [OF len d0, of "file_platform [] 1" "[]"]
  obtain d1 where
    "NoDecompressor_read (file_platform [] 1) (NoDecompressor_buffer (Some ''hello'') 5) []
       = (Inr ''hello'', d1, [])"
    "offset d1 = of_nat (length ''hello'')"
    "\<forall>tr'. NoDecompressor_read (file_platform [] 1) d1 tr' = (Inr [], d1, tr')"
    by blast
  then show ?thesis using len by auto
qed

lemma NoDecompressor_read_fd_unfold:
  assumes "m_buffer d = None"
  shows "NoDecompressor_read P d tr =
           (case read_outcome P
                   (tr @ (if want_buffered_pages_removed d
                          then [call_remove_buffered_pages (m_fd_d d) (m_offset_d d)] else []))
                   (m_fd_d d) (1024 * 1024) of
              Inl e \<Rightarrow>
                (Inl e, d,
                 tr @ (if want_buffered_pages_removed d
                       then [call_remove_buffered_pages (m_fd_d d) (m_offset_d d)] else [])
                    @ [call_reliable_read (m_fd_d d) (1024 * 1024) []])
            | Inr bytes \<Rightarrow>
                (Inr (take (1024 * 1024) bytes), advance_offset (take (1024 * 1024) bytes) d,
                 tr @ (if want_buffered_pages_removed d
                       then [call_remove_buffered_pages (m_fd_d d) (m_offset_d d)] else [])
                    @ [call_reliable_read (m_fd_d d) (1024 * 1024) (take (1024 * 1024) bytes)]))"
  using assms
  by (simp add: NoDecompressor_read_def reliable_read_def remove_buffered_pages_def
      input_buffer_size_def split: sum.splits)

lemma advance_offset_fields:
  "m_offset_d (advance_offset chunk d) = m_offset_d d + of_nat (length chunk)"
  "m_offset (advance_offset chunk d) = m_offset_d d + of_nat (length chunk)"
  "m_fd_d (advance_offset chunk d) = m_fd_d d"
  "m_buffer (advance_offset chunk d) = m_buffer d"
  "m_buffer_size (advance_offset chunk d) = m_buffer_size d"
  "m_file_size (advance_offset chunk d) = m_file_size d"
  "m_want_buffered_pages_removed (advance_offset chunk d) = m_want_buffered_pages_removed d"
  by (simp_all add: advance_offset_def set_offset_def Let_def)

text \<open>
  C6. A \<open>read()\<close> of a descriptor-backed \<open>NoDecompressor\<close> (null buffer pointer) makes
  exactly one platform read, on its descriptor and for at most \<open>1024 * 1024\<close> bytes; when
  the eviction flag is set, the eviction hint for the bytes consumed so far comes just before
  it in the transcript, and otherwise no hint is issued. When the platform read fails the
  exception leaves \<open>read()\<close> and the object is unchanged; otherwise \<open>read()\<close> returns the bytes
  that were delivered, at most \<open>1024 * 1024\<close> of them, and \<open>offset()\<close> has advanced by their
  number. An empty delivery leaves the offset where it was: at 0 for a newly built object.
\<close>

theorem NoDecompressor_fd_read:
  assumes "m_buffer d = None"
      and "NoDecompressor_read P d tr = (r, d', tr')"
  shows "\<exists>data.
           tr' = tr @ (if want_buffered_pages_removed d
                       then [call_remove_buffered_pages (m_fd_d d) (m_offset_d d)] else [])
                    @ [call_reliable_read (m_fd_d d) (1024 * 1024) data]
         \<and> length data \<le> 1024 * 1024
         \<and> (case read_outcome P
                    (tr @ (if want_buffered_pages_removed d
                           then [call_remove_buffered_pages (m_fd_d d) (m_offset_d d)] else []))
                    (m_fd_d d) (1024 * 1024) of
               Inl e \<Rightarrow> r = Inl e \<and> data = [] \<and> d' = d
             | Inr bytes \<Rightarrow> r = Inr data \<and> data = take (1024 * 1024) bytes)
         \<and> (r = Inr data \<longrightarrow>
               offset d' = m_offset_d d + of_nat (length data)
               \<and> m_buffer d' = None \<and> m_fd_d d' = m_fd_d d)
         \<and> (r = Inr [] \<longrightarrow> m_offset_d d' = m_offset_d d)
         \<and> (d = NoDecompressor_fd (m_fd_d d) \<and> r = Inr [] \<longrightarrow> offset d' = 0)"
proof -
  define hint where
    "hint = (if want_buffered_pages_removed d
             then [call_remove_buffered_pages (m_fd_d d) (m_offset_d d)] else [])"
  have unfold: "NoDecompressor_read P d tr =
           (case read_outcome P (tr @ hint) (m_fd_d d) (1024 * 1024) of
              Inl e \<Rightarrow> (Inl e, d, tr @ hint @ [call_reliable_read (m_fd_d d) (1024 * 1024) []])
            | Inr bytes \<Rightarrow>
                (Inr (take (1024 * 1024) bytes), advance_offset (take (1024 * 1024) bytes) d,
                 tr @ hint @ [call_reliable_read (m_fd_d d) (1024 * 1024) (take (1024 * 1024) bytes)]))"
    unfolding hint_def by (rule NoDecompressor_read_fd_unfold [OF assms(1)])
  have fresh: "m_offset_d (NoDecompressor_fd fd') = 0" for fd'
    by (simp add: NoDecompressor_fd_def)
  have goal: "\<exists>data.
           tr' = tr @ hint @ [call_reliable_read (m_fd_d d) (1024 * 1024) data]
         \<and> length data \<le> 1024 * 1024
         \<and> (case read_outcome P (tr @ hint) (m_fd_d d) (1024 * 1024) of
               Inl e \<Rightarrow> r = Inl e \<and> data = [] \<and> d' = d
             | Inr bytes \<Rightarrow> r = Inr data \<and> data = take (1024 * 1024) bytes)
         \<and> (r = Inr data \<longrightarrow>
               offset d' = m_offset_d d + of_nat (length data)
               \<and> m_buffer d' = None \<and> m_fd_d d' = m_fd_d d)
         \<and> (r = Inr [] \<longrightarrow> m_offset_d d' = m_offset_d d)
         \<and> (d = NoDecompressor_fd (m_fd_d d) \<and> r = Inr [] \<longrightarrow> offset d' = 0)"
  proof (cases "read_outcome P (tr @ hint) (m_fd_d d) (1024 * 1024)")
    case (Inl e)
    with assms(2) unfold
    have "r = Inl e" "d' = d" "tr' = tr @ hint @ [call_reliable_read (m_fd_d d) (1024 * 1024) []]"
      by auto
    with Inl show ?thesis by (intro exI [of _ "[]"]) simp
  next
    case (Inr bytes)
    with assms(2) unfold
    have res: "r = Inr (take (1024 * 1024) bytes)"
      "d' = advance_offset (take (1024 * 1024) bytes) d"
      "tr' = tr @ hint @ [call_reliable_read (m_fd_d d) (1024 * 1024) (take (1024 * 1024) bytes)]"
      by auto
    have zero: "offset d' = 0" if "d = NoDecompressor_fd (m_fd_d d)" "r = Inr []"
    proof -
      from that(1) have "m_offset_d d = 0" using fresh [of "m_fd_d d"] by simp
      with that(2) res show ?thesis by (simp add: offset_def advance_offset_fields)
    qed
    show ?thesis
      using res Inr assms(1) zero
      by (intro exI [of _ "take (1024 * 1024) bytes"]) (simp add: offset_def advance_offset_fields)
  qed
  then show ?thesis unfolding hint_def .
qed

theorem NoDecompressor_fd_read_witness:
  "m_buffer (set_want_buffered_pages_removed True (NoDecompressor_fd 3)) = None
   \<and> NoDecompressor_read (file_platform ''hello'' 2)
        (set_want_buffered_pages_removed True (NoDecompressor_fd 3)) []
     = (Inr ''he'', advance_offset ''he'' (set_want_buffered_pages_removed True (NoDecompressor_fd 3)),
        [call_remove_buffered_pages 3 0, call_reliable_read 3 (1024 * 1024) ''he''])
   \<and> offset (advance_offset ''he'' (set_want_buffered_pages_removed True (NoDecompressor_fd 3))) = 2
   \<and> NoDecompressor_read (file_platform [] 1) (NoDecompressor_fd 3) []
     = (Inr [], advance_offset [] (NoDecompressor_fd 3), [call_reliable_read 3 (1024 * 1024) []])
   \<and> offset (advance_offset [] (NoDecompressor_fd 3)) = 0"
proof -
  have nobuf: "m_buffer (set_want_buffered_pages_removed True (NoDecompressor_fd 3)) = None"
    "m_buffer (NoDecompressor_fd 3) = None"
    by (simp_all add: set_want_buffered_pages_removed_def NoDecompressor_fd_def)
  have r1: "NoDecompressor_read (file_platform ''hello'' 2)
        (set_want_buffered_pages_removed True (NoDecompressor_fd 3)) []
     = (Inr ''he'', advance_offset ''he'' (set_want_buffered_pages_removed True (NoDecompressor_fd 3)),
        [call_remove_buffered_pages 3 0, call_reliable_read 3 (1024 * 1024) ''he''])"
    by (simp add: NoDecompressor_read_def reliable_read_def remove_buffered_pages_def
        input_buffer_size_def want_buffered_pages_removed_def advance_offset_def set_offset_def
        set_want_buffered_pages_removed_def NoDecompressor_fd_def file_platform_def)
  have r2: "NoDecompressor_read (file_platform [] 1) (NoDecompressor_fd 3) []
     = (Inr [], advance_offset [] (NoDecompressor_fd 3), [call_reliable_read 3 (1024 * 1024) []])"
    by (simp add: NoDecompressor_read_def reliable_read_def remove_buffered_pages_def
        input_buffer_size_def want_buffered_pages_removed_def advance_offset_def set_offset_def
        NoDecompressor_fd_def file_platform_def)
  have fd: "m_fd_d (NoDecompressor_fd 3) = 3" "m_offset_d (NoDecompressor_fd 3) = 0"
    "m_fd_d (set_want_buffered_pages_removed True (NoDecompressor_fd 3)) = 3"
    "m_offset_d (set_want_buffered_pages_removed True (NoDecompressor_fd 3)) = 0"
    by (simp_all add: NoDecompressor_fd_def set_want_buffered_pages_removed_def)
  from NoDecompressor_fd_read [OF nobuf(1) r1] NoDecompressor_fd_read [OF nobuf(2) r2]
  show ?thesis using nobuf r1 r2 fd by auto
qed

subsection \<open>Creation of decompressors\<close>

lemma create_decompressor_fd_registered:
  assumes "m_callbacks compression = Some (cc, cdfd, cdbuf)"
  shows "create_decompressor_fd P dtor to_string m_callbacks compression fd tr =
           (case cdfd fd tr of
              (Inl e, tr1) \<Rightarrow> (Inl e, tr1)
            | (Inr p, tr1) \<Rightarrow>
                (case file_size_outcome P tr1 fd of
                   Inl e \<Rightarrow> (Inl e, dtor p (tr1 @ [call_file_size fd]))
                 | Inr sz \<Rightarrow> (Inr (set_file_size sz p), tr1 @ [call_file_size fd])))"
  using assms
  by (simp add: create_decompressor_fd_def find_callbacks_Some file_size_def
      split: prod.splits sum.splits)

text \<open>
  C8. For a registered identifier: when the descriptor callback builds an object and the
  query of the file size succeeds, \<open>create_decompressor\<close> on a descriptor returns that object
  with \<open>file_size()\<close> already equal to the size the platform reported; and every object it
  returns is the callback's object with the size reported for the descriptor set on it.
  The buffer variant returns what the buffer callback built, untouched; for the built-in
  registration that is a new \<open>NoDecompressor\<close> whose \<open>file_size()\<close> is 0.
\<close>

theorem create_decompressor_records_file_size:
  assumes "m_callbacks compression = Some (cc, cdfd, cdbuf)"
  shows "(cdfd fd tr = (Inr p0, tr1) \<and> file_size_outcome P tr1 fd = Inr s \<longrightarrow>
            create_decompressor_fd P dtor to_string m_callbacks compression fd tr
              = (Inr (set_file_size s p0), tr1 @ [call_file_size fd])
            \<and> Decompressor_file_size (set_file_size s p0) = s)
       \<and> (create_decompressor_fd P dtor to_string m_callbacks compression fd tr = (Inr p, tr') \<longrightarrow>
            (\<exists>p0 tr1. cdfd fd tr = (Inr p0, tr1)
               \<and> file_size_outcome P tr1 fd = Inr (Decompressor_file_size p)
               \<and> p = set_file_size (Decompressor_file_size p) p0))
       \<and> create_decompressor_buffer to_string m_callbacks compression buffer sz tr
            = cdbuf buffer sz tr
       \<and> create_decompressor_buffer to_string' (snd (registered_no_compression nc Map.empty)) nc
              buffer sz tr
            = (Inr (NoDecompressor_buffer buffer sz), tr)
       \<and> Decompressor_file_size (NoDecompressor_buffer buffer sz) = 0"
proof (intro conjI impI)
  note registered = create_decompressor_fd_registered
    [where m_callbacks = m_callbacks and compression = compression, OF assms]
  assume "cdfd fd tr = (Inr p0, tr1) \<and> file_size_outcome P tr1 fd = Inr s"
  then show "create_decompressor_fd P dtor to_string m_callbacks compression fd tr
              = (Inr (set_file_size s p0), tr1 @ [call_file_size fd])"
    by (simp add: registered)
next
  show "Decompressor_file_size (set_file_size s p0) = s"
    by (simp add: Decompressor_file_size_def set_file_size_def)
next
  note registered = create_decompressor_fd_registered
    [where m_callbacks = m_callbacks and compression = compression, OF assms]
  assume "create_decompressor_fd P dtor to_string m_callbacks compression fd tr = (Inr p, tr')"
  then show "\<exists>p0 tr1. cdfd fd tr = (Inr p0, tr1)
               \<and> file_size_outcome P tr1 fd = Inr (Decompressor_file_size p)
               \<and> p = set_file_size (Decompressor_file_size p) p0"
    by (auto simp: registered Decompressor_file_size_def
        set_file_size_def split: prod.splits sum.splits)
next
  show "create_decompressor_buffer to_string m_callbacks compression buffer sz tr = cdbuf buffer sz tr"
    using assms by (simp add: create_decompressor_buffer_def find_callbacks_Some)
next
  show "create_decompressor_buffer to_string' (snd (registered_no_compression nc Map.empty)) nc
              buffer sz tr
            = (Inr (NoDecompressor_buffer buffer sz), tr)"
    by (simp add: create_decompressor_buffer_def find_callbacks_def registered_no_compression_def
        register_compression_def map_insert_def)
next
  show "Decompressor_file_size (NoDecompressor_buffer buffer sz) = 0"
    by (simp add: Decompressor_file_size_def NoDecompressor_buffer_def)
qed

theorem create_decompressor_records_file_size_witness:
  "snd (registered_no_compression none Map.empty) none
     = Some ((\<lambda>fd sync tr. (Inr (NoCompressor_new fd sync), tr)),
             (\<lambda>fd tr. (Inr (NoDecompressor_fd fd), tr)),
             (\<lambda>buffer sz tr. (Inr (NoDecompressor_buffer buffer sz), tr)))
   \<and> create_decompressor_fd (file_platform ''hello'' 2)
        (NoDecompressor_dtor (file_platform ''hello'' 2)) file_compression_as_string
        (snd (registered_no_compression none Map.empty)) none 3 []
     = (Inr (set_file_size 5 (NoDecompressor_fd 3)), [call_file_size 3])
   \<and> Decompressor_file_size (set_file_size 5 (NoDecompressor_fd 3)) = 5
   \<and> create_decompressor_buffer file_compression_as_string
        (snd (registered_no_compression none Map.empty)) none (Some ''hello'') 5 []
     = (Inr (NoDecompressor_buffer (Some ''hello'') 5), [])
   \<and> Decompressor_file_size (NoDecompressor_buffer (Some ''hello'') 5) = 0"
proof -
  have reg: "snd (registered_no_compression none Map.empty) none
     = Some ((\<lambda>fd sync tr. (Inr (NoCompressor_new fd sync), tr)),
             (\<lambda>fd tr. (Inr (NoDecompressor_fd fd), tr)),
             (\<lambda>buffer sz tr. (Inr (NoDecompressor_buffer buffer sz), tr)))"
    by (simp add: registered_no_compression_def register_compression_def map_insert_def)
  have reported: "file_size_outcome (file_platform ''hello'' 2) ([] @ []) 3 = Inr 5"
    by (simp add: file_platform_def)
  from create_decompressor_records_file_size
    [where m_callbacks = "snd (registered_no_compression none Map.empty)" and compression = none
       and fd = 3 and tr = "[]" and ?p0.0 = "NoDecompressor_fd 3" and ?tr1.0 = "[]"
       and P = "file_platform ''hello'' 2" and s = 5
       and dtor = "NoDecompressor_dtor (file_platform ''hello'' 2)"
       and to_string = file_compression_as_string and to_string' = file_compression_as_string
       and nc = none and buffer = "Some ''hello''" and sz = 5, OF reg]
    reg reported
  show ?thesis by simp
qed

subsection \<open>The offset of a NoDecompressor\<close>

lemma consumed_append: "consumed fd (xs @ ys) = consumed fd xs + consumed fd ys"
  by (induction fd xs rule: consumed.induct) simp_all

lemma NoDecompressor_read_fields:
  assumes "NoDecompressor_read P d tr = (Inr chunk, d', tr')"
  shows "d' = advance_offset chunk (d\<lparr>m_buffer_size := m_buffer_size d'\<rparr>)"
  using assms
  by (auto simp: NoDecompressor_read_def advance_offset_def set_offset_def Let_def
      split: option.splits if_splits prod.splits sum.splits)

lemma NoDecompressor_reads_Suc:
  assumes "NoDecompressor_reads P (Suc k) d tr = (Inr chunks, d', tr')"
  shows "\<exists>chunk da tra rest.
           NoDecompressor_read P d tr = (Inr chunk, da, tra)
         \<and> NoDecompressor_reads P k da tra = (Inr rest, d', tr')
         \<and> chunks = chunk # rest"
  using assms by (auto split: prod.splits sum.splits)

lemma NoDecompressor_reads_fields:
  "NoDecompressor_reads P k d tr = (Inr chunks, d', tr') \<Longrightarrow> m_offset d = m_offset_d d \<Longrightarrow>
   m_offset_d d' = m_offset_d d + of_nat (sum_list (map length chunks))
   \<and> m_offset d' = m_offset_d d' \<and> length chunks = k
   \<and> m_fd_d d' = m_fd_d d \<and> m_buffer d' = m_buffer d \<and> m_file_size d' = m_file_size d"
proof (induction k arbitrary: d tr chunks)
  case 0
  then show ?case by simp
next
  case (Suc k)
  from NoDecompressor_reads_Suc [OF Suc.prems(1)] obtain chunk da tra rest where
    rd: "NoDecompressor_read P d tr = (Inr chunk, da, tra)" and
    rest: "NoDecompressor_reads P k da tra = (Inr rest, d', tr')" and
    chunks: "chunks = chunk # rest"
    by blast
  note da = NoDecompressor_read_fields [OF rd]
  have inv: "m_offset da = m_offset_d da"
    by (subst (1 2) da) (simp add: advance_offset_fields)
  have step: "m_offset_d da = m_offset_d d + of_nat (length chunk)" "m_fd_d da = m_fd_d d"
    "m_buffer da = m_buffer d" "m_file_size da = m_file_size d"
    by (subst da, simp add: advance_offset_fields)+
  from Suc.IH [OF rest inv] step chunks show ?case by simp
qed

lemma static_source_read:
  assumes "static_source P fd content" and "m_buffer d = None" and "m_fd_d d = fd"
  shows "\<exists>data tr'. NoDecompressor_read P d tr = (Inr data, advance_offset data d, tr')
           \<and> consumed fd tr' = consumed fd tr + length data
           \<and> (data = [] \<longleftrightarrow> length content \<le> consumed fd tr)
           \<and> (consumed fd tr \<le> length content \<longrightarrow> consumed fd tr + length data \<le> length content)"
proof -
  define hint where
    "hint = (if want_buffered_pages_removed d
             then [call_remove_buffered_pages (m_fd_d d) (m_offset_d d)] else [])"
  have hint: "consumed fd (tr @ hint) = consumed fd tr"
    by (simp add: consumed_append hint_def)
  from assms(1) obtain k where k: "0 < k"
    "read_outcome P (tr @ hint) fd (1024 * 1024)
       = Inr (take k (drop (consumed fd (tr @ hint)) content))"
    unfolding static_source_def by (metis zero_less_numeral mult_pos_pos)
  let ?data = "take (1024 * 1024) (take k (drop (consumed fd tr) content))"
  have rd: "NoDecompressor_read P d tr
      = (Inr ?data, advance_offset ?data d,
         tr @ hint @ [call_reliable_read fd (1024 * 1024) ?data])"
    using k(2) hint assms(3)
    by (simp add: NoDecompressor_read_fd_unfold [OF assms(2)] hint_def)
  have cons: "consumed fd (tr @ hint @ [call_reliable_read fd (1024 * 1024) ?data])
      = consumed fd tr + length ?data"
    using hint by (simp add: consumed_append)
  have empty: "?data = [] \<longleftrightarrow> length content \<le> consumed fd tr"
    using k(1) by (auto simp: min_def)
  have bound: "consumed fd tr \<le> length content \<Longrightarrow> consumed fd tr + length ?data \<le> length content"
    by simp
  from rd cons empty bound show ?thesis by blast
qed

lemma static_source_reads:
  "static_source P fd content \<Longrightarrow> m_buffer d = None \<Longrightarrow> m_fd_d d = fd \<Longrightarrow>
   m_offset d = m_offset_d d \<Longrightarrow>
   NoDecompressor_reads P k d tr = (Inr chunks, d', tr') \<Longrightarrow>
   consumed fd tr' = consumed fd tr + sum_list (map length chunks)
   \<and> (consumed fd tr \<le> length content \<longrightarrow> consumed fd tr' \<le> length content)"
proof (induction k arbitrary: d tr chunks)
  case 0
  then show ?case by simp
next
  case (Suc k)
  from NoDecompressor_reads_Suc [OF Suc.prems(5)] obtain chunk da tra rest where
    rd: "NoDecompressor_read P d tr = (Inr chunk, da, tra)" and
    rest: "NoDecompressor_reads P k da tra = (Inr rest, d', tr')" and
    chunks: "chunks = chunk # rest"
    by blast
  from static_source_read [OF Suc.prems(1-3), of tr] rd
  have step: "consumed fd tra = consumed fd tr + length chunk"
    "consumed fd tr \<le> length content \<longrightarrow> consumed fd tra \<le> length content"
    by auto
  have one: "NoDecompressor_reads P (Suc 0) d tr = (Inr [chunk], da, tra)"
    using rd by simp
  from NoDecompressor_reads_fields [OF one Suc.prems(4)] Suc.prems(2,3)
  have da: "m_buffer da = None" "m_fd_d da = fd" "m_offset da = m_offset_d da"
    by simp_all
  from Suc.IH [OF Suc.prems(1) da rest] step chunks show ?case by auto
qed


lemma static_source_reads_empty:
  "static_source P fd content \<Longrightarrow> m_buffer d = None \<Longrightarrow> m_fd_d d = fd \<Longrightarrow>
   m_offset d = m_offset_d d \<Longrightarrow>
   NoDecompressor_reads P k d tr = (Inr chunks, d', tr') \<Longrightarrow> [] \<in> set chunks \<Longrightarrow>
   length content \<le> consumed fd tr'"
proof (induction k arbitrary: d tr chunks)
  case 0
  then show ?case by simp
next
  case (Suc k)
  from NoDecompressor_reads_Suc [OF Suc.prems(5)] obtain chunk da tra rest where
    rd: "NoDecompressor_read P d tr = (Inr chunk, da, tra)" and
    rest: "NoDecompressor_reads P k da tra = (Inr rest, d', tr')" and
    chunks: "chunks = chunk # rest"
    by blast
  have one: "NoDecompressor_reads P (Suc 0) d tr = (Inr [chunk], da, tra)"
    using rd by simp
  from NoDecompressor_reads_fields [OF one Suc.prems(4)] Suc.prems(2,3)
  have da: "m_buffer da = None" "m_fd_d da = fd" "m_offset da = m_offset_d da"
    by simp_all
  show ?case
  proof (cases "chunk = []")
    case True
    from static_source_read [OF Suc.prems(1-3), of tr] rd True
    have "length content \<le> consumed fd tr" by auto
    moreover from static_source_reads [OF Suc.prems(1-5)]
    have "consumed fd tr \<le> consumed fd tr'" by simp
    ultimately show ?thesis by simp
  next
    case False
    with Suc.prems(6) chunks have "[] \<in> set rest" by auto
    from Suc.IH [OF Suc.prems(1) da rest this] show ?thesis .
  qed
qed

lemma static_source_reads_total:
  "static_source P fd content \<Longrightarrow> m_buffer d = None \<Longrightarrow> m_fd_d d = fd \<Longrightarrow>
   \<exists>chunks d' tr'. NoDecompressor_reads P k d tr = (Inr chunks, d', tr')"
proof (induction k arbitrary: d tr)
  case 0
  then show ?case by simp
next
  case (Suc k)
  from static_source_read [OF Suc.prems, of tr] obtain data tra where
    rd: "NoDecompressor_read P d tr = (Inr data, advance_offset data d, tra)"
    by blast
  have "m_buffer (advance_offset data d) = None" "m_fd_d (advance_offset data d) = fd"
    using Suc.prems by (simp_all add: advance_offset_fields)
  from Suc.IH [OF Suc.prems(1) this, of tra] obtain rest d' tr' where
    "NoDecompressor_reads P k (advance_offset data d) tra = (Inr rest, d', tr')"
    by blast
  with rd show ?case by simp
qed

lemma size_t_of_nat_less:
  "n < 2 ^ 64 \<Longrightarrow> unat (of_nat n :: size_t) = n"
  by (simp add: unat_of_nat)

lemma file_platform_static_source:
  "0 < chunk \<Longrightarrow> static_source (file_platform content chunk) fd content"
  unfolding static_source_def file_platform_def by auto

text \<open>
  C7, as amended. Take a newly built \<open>NoDecompressor\<close>, over a descriptor or over a
  buffer, with any file size and eviction flag set on it, and any number of \<open>read()\<close> calls
  that return. After them \<open>offset()\<close> is the sum of the lengths of the chunks returned (as a
  \<open>size_t\<close>), and after further reads it is the sum over all chunks; while the sum stays
  below \<open>2^64\<close> the later offset is not smaller than the earlier one. For a descriptor at
  the start of a source with fixed content, whose length is the file size recorded on the
  object: the reads never fail, and after any number of them \<open>offset()\<close> equals
  \<open>file_size()\<close> exactly when all the bytes of the source have been returned, which are
  exactly the states in which the next \<open>read()\<close> returns the empty chunk. So the two are
  equal from the read that returns the last bytes on: they are equal whenever an empty chunk
  has been returned, and still are when the first empty \<open>read()\<close> has returned.
\<close>

theorem NoDecompressor_offset_counts_read:
  assumes "dn = NoDecompressor_fd fd \<or> dn = NoDecompressor_buffer buffer sz"
      and "d0 = set_want_buffered_pages_removed v (set_file_size s dn)"
      and "NoDecompressor_reads P k d0 tr0 = (Inr chunks1, d1, tr1)"
      and "NoDecompressor_reads P j d1 tr1 = (Inr chunks2, d2, tr2)"
  shows "offset d1 = of_nat (sum_list (map length chunks1))
       \<and> offset d2 = of_nat (sum_list (map length (chunks1 @ chunks2)))
       \<and> (sum_list (map length (chunks1 @ chunks2)) < 2 ^ 64 \<longrightarrow>
            offset d1 \<le> offset d2
            \<and> unat (offset d2) = sum_list (map length (chunks1 @ chunks2)))
       \<and> (dn = NoDecompressor_fd fd \<and> static_source P fd content \<and> consumed fd tr0 = 0
            \<and> s = of_nat (length content) \<and> length content < 2 ^ 64 \<longrightarrow>
            (\<forall>n. \<exists>chunks d' tr'. NoDecompressor_reads P n d0 tr0 = (Inr chunks, d', tr'))
          \<and> Decompressor_file_size d1 = of_nat (length content)
          \<and> (offset d1 = Decompressor_file_size d1
                \<longleftrightarrow> sum_list (map length chunks1) = length content)
          \<and> (offset d1 = Decompressor_file_size d1
                \<longleftrightarrow> fst (NoDecompressor_read P d1 tr1) = Inr [])
          \<and> ([] \<in> set chunks1 \<longrightarrow> offset d1 = Decompressor_file_size d1)
          \<and> (fst (NoDecompressor_read P d1 tr1) = Inr [] \<longrightarrow>
                offset (fst (snd (NoDecompressor_read P d1 tr1)))
                  = Decompressor_file_size (fst (snd (NoDecompressor_read P d1 tr1)))))"
proof -
  let ?n1 = "sum_list (map length chunks1)"
  let ?n2 = "sum_list (map length chunks2)"
  have new: "m_offset d0 = 0" "m_offset_d d0 = 0" "m_file_size d0 = s"
    using assms(1,2)
    by (auto simp: NoDecompressor_fd_def NoDecompressor_buffer_def set_file_size_def
        set_want_buffered_pages_removed_def)
  then have inv0: "m_offset d0 = m_offset_d d0" by simp
  note f1 = NoDecompressor_reads_fields [OF assms(3) inv0]
  then have inv1: "m_offset d1 = m_offset_d d1" by simp
  note f2 = NoDecompressor_reads_fields [OF assms(4) inv1]
  have off1: "offset d1 = of_nat ?n1"
    using f1 new by (simp add: offset_def)
  have off2: "offset d2 = of_nat (sum_list (map length (chunks1 @ chunks2)))"
    using f1 f2 new by (simp add: offset_def)
  have mono: "offset d1 \<le> offset d2 \<and> unat (offset d2) = sum_list (map length (chunks1 @ chunks2))"
    if fits: "sum_list (map length (chunks1 @ chunks2)) < 2 ^ 64"
  proof -
    from fits have "?n1 < 2 ^ 64" by simp
    then have "unat (offset d1) = ?n1" unfolding off1 by (rule size_t_of_nat_less)
    moreover have "unat (offset d2) = sum_list (map length (chunks1 @ chunks2))"
      unfolding off2 using fits by (rule size_t_of_nat_less)
    ultimately show ?thesis by (simp add: word_le_nat_alt)
  qed
  have static: "(\<forall>n. \<exists>chunks d' tr'. NoDecompressor_reads P n d0 tr0 = (Inr chunks, d', tr'))
          \<and> Decompressor_file_size d1 = of_nat (length content)
          \<and> (offset d1 = Decompressor_file_size d1
                \<longleftrightarrow> sum_list (map length chunks1) = length content)
          \<and> (offset d1 = Decompressor_file_size d1
                \<longleftrightarrow> fst (NoDecompressor_read P d1 tr1) = Inr [])
          \<and> ([] \<in> set chunks1 \<longrightarrow> offset d1 = Decompressor_file_size d1)
          \<and> (fst (NoDecompressor_read P d1 tr1) = Inr [] \<longrightarrow>
                offset (fst (snd (NoDecompressor_read P d1 tr1)))
                  = Decompressor_file_size (fst (snd (NoDecompressor_read P d1 tr1))))"
    if H: "dn = NoDecompressor_fd fd \<and> static_source P fd content \<and> consumed fd tr0 = 0
            \<and> s = of_nat (length content) \<and> length content < 2 ^ 64"
  proof -
    from H have src: "static_source P fd content" and start: "consumed fd tr0 = 0"
      and len: "length content < 2 ^ 64" and s: "s = of_nat (length content)"
      by simp_all
    from H assms(2) have d0: "m_buffer d0 = None" "m_fd_d d0 = fd"
      by (simp_all add: NoDecompressor_fd_def set_file_size_def set_want_buffered_pages_removed_def)
    with f1 have d1: "m_buffer d1 = None" "m_fd_d d1 = fd" by simp_all
    have total: "\<forall>n. \<exists>chunks d' tr'. NoDecompressor_reads P n d0 tr0 = (Inr chunks, d', tr')"
      using static_source_reads_total [OF src d0] by blast
    have size1: "Decompressor_file_size d1 = of_nat (length content)"
      using f1 new s by (simp add: Decompressor_file_size_def)
    from static_source_reads [OF src d0 inv0 assms(3)] start
    have pos: "consumed fd tr1 = ?n1" "?n1 \<le> length content" by simp_all
    from static_source_read [OF src d1, of tr1] obtain data tra where
      rd: "NoDecompressor_read P d1 tr1 = (Inr data, advance_offset data d1, tra)" and
      empty: "data = [] \<longleftrightarrow> length content \<le> consumed fd tr1"
      by blast
    have u1: "unat (offset d1) = ?n1"
      unfolding off1 using pos(2) len by (intro size_t_of_nat_less) simp
    have u2: "unat (Decompressor_file_size d1) = length content"
      unfolding size1 using len by (rule size_t_of_nat_less)
    have all_read: "offset d1 = Decompressor_file_size d1 \<longleftrightarrow> ?n1 = length content"
      using u1 u2 by (metis off1 size1)
    also have "\<dots> \<longleftrightarrow> data = []" using empty pos by auto
    finally have iff: "offset d1 = Decompressor_file_size d1
        \<longleftrightarrow> fst (NoDecompressor_read P d1 tr1) = Inr []"
      using rd by simp
    have reached: "offset d1 = Decompressor_file_size d1" if "[] \<in> set chunks1"
    proof -
      from static_source_reads_empty [OF src d0 inv0 assms(3) that] pos
      have "?n1 = length content" by simp
      with all_read show ?thesis by simp
    qed
    have after: "offset (fst (snd (NoDecompressor_read P d1 tr1)))
        = Decompressor_file_size (fst (snd (NoDecompressor_read P d1 tr1)))"
      if "fst (NoDecompressor_read P d1 tr1) = Inr []"
    proof -
      from that rd have "data = []" by simp
      with rd have "fst (snd (NoDecompressor_read P d1 tr1)) = advance_offset [] d1" by simp
      moreover have "offset (advance_offset [] d1) = offset d1"
        using inv1 by (simp add: offset_def advance_offset_fields)
      moreover have "Decompressor_file_size (advance_offset [] d1) = Decompressor_file_size d1"
        by (simp add: Decompressor_file_size_def advance_offset_fields)
      ultimately show ?thesis using iff that by simp
    qed
    from total size1 all_read iff reached after show ?thesis by blast
  qed
  from off1 off2 mono static show ?thesis by blast
qed


theorem NoDecompressor_offset_counts_read_witness:
  "static_source (file_platform ''hello'' 2) 3 ''hello''
   \<and> fst (NoDecompressor_reads (file_platform ''hello'' 2) (Suc (Suc (Suc 0)))
           (set_want_buffered_pages_removed False (set_file_size 5 (NoDecompressor_fd 3))) [])
       = Inr [''he'', ''ll'', ''o'']
   \<and> offset (fst (snd (NoDecompressor_reads (file_platform ''hello'' 2) (Suc (Suc (Suc 0)))
           (set_want_buffered_pages_removed False (set_file_size 5 (NoDecompressor_fd 3))) [])))
       = 5
   \<and> Decompressor_file_size
         (fst (snd (NoDecompressor_reads (file_platform ''hello'' 2) (Suc (Suc (Suc 0)))
           (set_want_buffered_pages_removed False (set_file_size 5 (NoDecompressor_fd 3))) [])))
       = 5
   \<and> fst (NoDecompressor_reads (file_platform ''hello'' 2) (Suc 0)
           (fst (snd (NoDecompressor_reads (file_platform ''hello'' 2) (Suc (Suc (Suc 0)))
              (set_want_buffered_pages_removed False (set_file_size 5 (NoDecompressor_fd 3))) [])))
           (snd (snd (NoDecompressor_reads (file_platform ''hello'' 2) (Suc (Suc (Suc 0)))
              (set_want_buffered_pages_removed False (set_file_size 5 (NoDecompressor_fd 3))) []))))
       = Inr [[]]"
proof -
  let ?P = "file_platform ''hello'' 2"
  let ?d0 = "set_want_buffered_pages_removed False (set_file_size 5 (NoDecompressor_fd 3))"
  note defs = NoDecompressor_read_def reliable_read_def remove_buffered_pages_def
    input_buffer_size_def want_buffered_pages_removed_def advance_offset_def set_offset_def
    set_want_buffered_pages_removed_def set_file_size_def NoDecompressor_fd_def file_platform_def
  have src: "static_source ?P 3 ''hello''"
    by (rule file_platform_static_source) simp
  obtain d1 tr1 where
    r1: "NoDecompressor_reads ?P (Suc (Suc (Suc 0))) ?d0 [] = (Inr [''he'', ''ll'', ''o''], d1, tr1)"
    by (simp add: defs)
  obtain d2 tr2 where
    r2: "NoDecompressor_reads ?P (Suc 0) d1 tr1 = (Inr [[]], d2, tr2)"
    using r1 by (auto simp: defs)
  have hyp: "NoDecompressor_fd 3 = NoDecompressor_fd 3 \<and> static_source ?P 3 ''hello''
      \<and> consumed 3 [] = 0 \<and> (5 :: size_t) = of_nat (length ''hello'')
      \<and> length ''hello'' < (2::nat) ^ 64"
    using src by simp
  from NoDecompressor_offset_counts_read
    [where dn = "NoDecompressor_fd 3" and fd = 3 and buffer = None and sz = 0 and v = False
       and s = 5 and content = "''hello''", OF _ refl r1 r2]
  have "offset d1 = of_nat (sum_list (map length [''he'', ''ll'', ''o'']))"
    "Decompressor_file_size d1 = of_nat (length ''hello'')"
    using hyp by blast+
  then show ?thesis using src r1 r2 by simp
qed

text \<open>
  C7 as it was stated does not hold: \<open>offset()\<close> reaches \<open>file_size()\<close> before the first
  empty result. Over the five bytes of \<open>hello\<close>, delivered two at a time and with the file
  size 5 recorded on the object, three reads return \<open>he\<close>, \<open>ll\<close> and \<open>o\<close>: none of them
  is empty, and \<open>offset()\<close> already equals \<open>file_size()\<close>.
\<close>

theorem NoDecompressor_offset_equals_file_size_before_empty_read:
  "fst (NoDecompressor_reads (file_platform ''hello'' 2) (Suc (Suc (Suc 0)))
          (set_file_size 5 (NoDecompressor_fd 3)) [])
     = Inr [''he'', ''ll'', ''o'']
   \<and> [] \<notin> set [''he'', ''ll'', ''o'']
   \<and> offset (fst (snd (NoDecompressor_reads (file_platform ''hello'' 2) (Suc (Suc (Suc 0)))
          (set_file_size 5 (NoDecompressor_fd 3)) [])))
     = Decompressor_file_size
         (fst (snd (NoDecompressor_reads (file_platform ''hello'' 2) (Suc (Suc (Suc 0)))
            (set_file_size 5 (NoDecompressor_fd 3)) [])))
   \<and> Decompressor_file_size
         (fst (snd (NoDecompressor_reads (file_platform ''hello'' 2) (Suc (Suc (Suc 0)))
            (set_file_size 5 (NoDecompressor_fd 3)) [])))
     = 5"
  by (simp add: NoDecompressor_read_def reliable_read_def remove_buffered_pages_def
      input_buffer_size_def want_buffered_pages_removed_def advance_offset_def set_offset_def
      set_file_size_def NoDecompressor_fd_def file_platform_def offset_def
      Decompressor_file_size_def)

end
